theory Spec2Isabelle
  imports Main "HOL-Library.Sublist"
begin

section \<open>Tables\<close>

text \<open>
  The endpoint \<^verbatim>\<open>reconcile\<close> of \<^verbatim>\<open>src/main.py\<close> works on three pandas data frames.
  A frame is modelled as its ordered list of column labels together with its rows, each row
  being the list of its cells in column order. Labels may repeat: two headers that differ only
  in surrounding blanks become equal once they are trimmed. A cell is a decoded text or the
  missing value (pandas \<^verbatim>\<open>NaN\<close>); the numeric and date types that the CSV decoder may
  infer, and what the join does when the types of its two keys disagree, are not part of
  this model. Characters are code points below 256.
\<close>

datatype cell = Null | Str string

record table =
  columns :: "string list"
  rows :: "cell list list"

definition wf_table :: "table \<Rightarrow> bool" where
  "wf_table t = list_all (\<lambda>r. length r = length (columns t)) (rows t)"

datatype error =
    MissingColumn string string "string list"
  | KeyError string
  | LabelNotUnique string
  | MergeError "string list"
  | NotAColumn string

text \<open>
  \<open>MissingColumn name col available\<close> is the \<^verbatim>\<open>HTTPException(status_code=400, ...)\<close> of line 55;
  its three fields are the three values interpolated into the detail message. The other
  three are raised by \<^verbatim>\<open>pd.merge\<close>: \<open>KeyError\<close> for a key label that is not a column,
  \<open>LabelNotUnique\<close> for the \<^verbatim>\<open>ValueError\<close> of a key label carried by several columns, and
  \<open>MergeError\<close> when the suffixes produce a label that was already there. \<open>NotAColumn\<close>
  belongs to the filter of lines 94 to 97 and is explained there.
\<close>

section \<open>Header normalisation (lines 44 to 46, and line 60)\<close>

text \<open>Python's \<^verbatim>\<open>str.strip()\<close> removes leading and trailing white space.\<close>

definition is_space :: "char \<Rightarrow> bool" where
  "is_space c = (c \<in> set [CHR 0x09, CHR 0x0A, CHR 0x0B, CHR 0x0C, CHR 0x0D,
                            CHR 0x1C, CHR 0x1D, CHR 0x1E, CHR 0x1F, CHR 0x20,
                            CHR 0x85, CHR 0xA0])"

definition strip :: "string \<Rightarrow> string" where
  "strip s = rev (dropWhile is_space (rev (dropWhile is_space s)))"

definition strip_columns :: "table \<Rightarrow> table" where
  "strip_columns t = t\<lparr>columns := map strip (columns t)\<rparr>"

section \<open>Required columns (lines 49 to 55)\<close>

fun check_required :: "(string \<times> table \<times> string) list \<Rightarrow> error + unit" where
  "check_required [] = Inr ()"
| "check_required ((name, df, col) # rest) =
     (if col \<notin> set (columns df) then Inl (MissingColumn name col (columns df))
      else check_required rest)"

section \<open>The left join of pandas\<close>

text \<open>
  \<^verbatim>\<open>pd.merge(left, right, how='left', left_on=[lk], right_on=[rk])\<close> with two different key
  labels, as both calls of the source have them. The key label is looked up on the right, then
  on the left; a missing label is a \<open>KeyError\<close>, a repeated one a \<^verbatim>\<open>ValueError\<close>. Every label
  that occurs on both sides gets the suffix \<^verbatim>\<open>_x\<close> on the left and \<^verbatim>\<open>_y\<close> on the right; a
  duplicate label that the suffix creates is a \<open>MergeError\<close>. The result has the left columns
  followed by the right columns. Each left row, in order, is paired with every right row
  whose key cell equals its own (missing values match each other), in the order of the right
  table, or with missing values when there is none.
\<close>

fun index_of :: "'a \<Rightarrow> 'a list \<Rightarrow> nat" where
  "index_of x [] = 0"
| "index_of x (y # ys) = (if x = y then 0 else Suc (index_of x ys))"

definition get_label_position :: "table \<Rightarrow> string \<Rightarrow> error + nat" where
  "get_label_position t c =
     (if c \<notin> set (columns t) then Inl (KeyError c)
      else if count_list (columns t) c \<noteq> 1 then Inl (LabelNotUnique c)
      else Inr (index_of c (columns t)))"

definition renamer :: "string list \<Rightarrow> string list \<Rightarrow> string \<Rightarrow> string \<Rightarrow> string" where
  "renamer left right sfx x =
     (if x \<in> set left \<and> x \<in> set right then x @ sfx else x)"

fun duplicated :: "'a list \<Rightarrow> 'a list \<Rightarrow> bool list" where
  "duplicated seen [] = []"
| "duplicated seen (x # xs) = (x \<in> set seen) # duplicated (x # seen) xs"

definition suffix_dups :: "string list \<Rightarrow> string list \<Rightarrow> string list" where
  "suffix_dups orig labels =
     map fst (filter (\<lambda>(l, d, od). d \<and> \<not> od)
                (zip labels (zip (duplicated [] labels) (duplicated [] orig))))"

definition items_overlap_with_suffix ::
  "string list \<Rightarrow> string list \<Rightarrow> error + (string list \<times> string list)" where
  "items_overlap_with_suffix left right =
     (let llabels = map (renamer left right ''_x'') left;
          rlabels = map (renamer left right ''_y'') right;
          dups = suffix_dups left llabels @ suffix_dups right rlabels
      in if dups \<noteq> [] then Inl (MergeError dups) else Inr (llabels, rlabels))"

definition join_row :: "nat \<Rightarrow> nat \<Rightarrow> nat \<Rightarrow> cell list list \<Rightarrow> cell list \<Rightarrow> cell list list" where
  "join_row lpos rpos rwidth rrows l =
     (case filter (\<lambda>r. r ! rpos = l ! lpos) rrows of
        [] \<Rightarrow> [l @ replicate rwidth Null]
      | ms \<Rightarrow> map (\<lambda>r. l @ r) ms)"

definition pd_merge_left :: "table \<Rightarrow> table \<Rightarrow> string \<Rightarrow> string \<Rightarrow> error + table" where
  "pd_merge_left left right lk rk =
     (case get_label_position right rk of Inl e \<Rightarrow> Inl e | Inr rpos \<Rightarrow>
       (case get_label_position left lk of Inl e \<Rightarrow> Inl e | Inr lpos \<Rightarrow>
         (case items_overlap_with_suffix (columns left) (columns right) of Inl e \<Rightarrow> Inl e
          | Inr (llabels, rlabels) \<Rightarrow>
              Inr \<lparr>columns = llabels @ rlabels,
                   rows = concat (map (join_row lpos rpos (length (columns right)) (rows right))
                                      (rows left))\<rparr>)))"

section \<open>Projections (lines 62 to 69 and 74 to 83)\<close>

text \<open>
  \<^verbatim>\<open>df[[labels]]\<close> returns, for each label of the list in turn, every column that carries it.
  The list the source passes is the allow-list restricted to the labels that are present.
\<close>

definition positions :: "string list \<Rightarrow> string \<Rightarrow> nat list" where
  "positions cols c = filter (\<lambda>i. cols ! i = c) [0..<length cols]"

definition select_columns :: "string list \<Rightarrow> table \<Rightarrow> table" where
  "select_columns labels t =
     (let idx = concat (map (positions (columns t)) labels)
      in \<lparr>columns = map (\<lambda>i. columns t ! i) idx,
          rows = map (\<lambda>r. map (\<lambda>i. r ! i) idx) (rows t)\<rparr>)"

definition first_columns :: "string list" where
  "first_columns =
     [''Warehouse'', ''Pickticket'', ''Order'', ''Drop Date'', ''Ship Date'', ''Ship To'',
      ''Ship State'', ''Zip Code'', ''Customer PO'', ''Ship Via'', ''Load ID'',
      ''Weight'', ''SKU'', ''Units'', ''Price'', ''Size Type'', ''Size'', ''Product Type'',
      ''InvoiceNumber'', ''StatusSummary'', ''ERRORDESCRIPTION'']"

definition final_columns :: "string list" where
  "final_columns =
     [''Pickticket'', ''Warehouse'', ''Order'', ''Drop Date'', ''Ship Date'', ''Ship To'',
      ''Ship State'', ''Zip Code'', ''Customer PO'', ''Ship Via'', ''Load ID'',
      ''Weight'', ''SKU'', ''Units'', ''Price'', ''Size Type'', ''Size'', ''Product Type'',
      ''InvoiceNumber'', ''StatusSummary'', ''ERRORDESCRIPTION'',
      ''PickRoute'', ''SalesHeaderStatus'', ''SalesHeaderDocStatus'',
      ''PickModeOfDelivery'', ''PickCreatedDate'', ''DeliveryDate'']"

definition first_projection :: "table \<Rightarrow> table" where
  "first_projection t = select_columns [c \<leftarrow> first_columns. c \<in> set (columns t)] t"

definition second_projection :: "table \<Rightarrow> table" where
  "second_projection t = select_columns [c \<leftarrow> final_columns. c \<in> set (columns t)] t"

section \<open>Rename (lines 85 to 90)\<close>

definition rename_map :: "(string \<times> string) list" where
  "rename_map =
     [(''InvoiceNumber'', ''Received in EDI?''),
      (''StatusSummary'', ''EDI Processing Status''),
      (''ERRORDESCRIPTION'', ''EDI Message''),
      (''PickRoute'', ''Found in AX DATa?'')]"

definition rename_label :: "string \<Rightarrow> string" where
  "rename_label c = (case map_of rename_map c of None \<Rightarrow> c | Some d \<Rightarrow> d)"

definition rename_columns :: "table \<Rightarrow> table" where
  "rename_columns t = t\<lparr>columns := map rename_label (columns t)\<rparr>"

section \<open>Filter (lines 93 to 99)\<close>

text \<open>
  \<^verbatim>\<open>df[label]\<close> is the column of that label when one column carries it, \<^verbatim>\<open>isin\<close> tests each
  of its cells for membership in a list of texts (a missing value is in no list), \<^verbatim>\<open>&\<close>
  combines two masks row by row and \<^verbatim>\<open>df[mask]\<close> keeps the rows whose mask entry is true.

  When several columns carry the label (two headers of the third file that are equal once
  trimmed, say), \<^verbatim>\<open>df[label]\<close> is a frame with all of them and \<^verbatim>\<open>isin\<close> gives a frame of
  truth values, not one truth value per row. \<^verbatim>\<open>&\<close> then aligns the other mask with the
  labels of that frame, and indexing with a frame selects cells, not rows: no row of the
  table is selected by its cell, and pandas raises a \<^verbatim>\<open>ValueError\<close> while it aligns the
  repeated labels. The model stops with \<open>NotAColumn label\<close> at the first of the two labels
  that is repeated.
\<close>

definition get_column :: "table \<Rightarrow> string \<Rightarrow> error + cell list" where
  "get_column t c =
     (if c \<notin> set (columns t) then Inl (KeyError c)
      else if count_list (columns t) c \<noteq> 1 then Inl (NotAColumn c)
      else Inr (map (\<lambda>r. r ! index_of c (columns t)) (rows t)))"

definition isin :: "cell list \<Rightarrow> string list \<Rightarrow> bool list" where
  "isin cells vals = map (\<lambda>v. case v of Null \<Rightarrow> False | Str s \<Rightarrow> s \<in> set vals) cells"

definition mask_and :: "bool list \<Rightarrow> bool list \<Rightarrow> bool list" where
  "mask_and m1 m2 = map (\<lambda>(a, b). a \<and> b) (zip m1 m2)"

definition select_rows :: "table \<Rightarrow> bool list \<Rightarrow> table" where
  "select_rows t keep = t\<lparr>rows := map fst (filter snd (zip (rows t) keep))\<rparr>"

definition filter_step :: "table \<Rightarrow> error + table" where
  "filter_step t =
     (if ''SalesHeaderDocStatus'' \<in> set (columns t) \<and> ''EDI Processing Status'' \<in> set (columns t)
      then (case get_column t ''SalesHeaderDocStatus'' of Inl e \<Rightarrow> Inl e | Inr doc_status \<Rightarrow>
             (case get_column t ''EDI Processing Status'' of Inl e \<Rightarrow> Inl e | Inr edi_status \<Rightarrow>
                Inr (select_rows t
                       (mask_and (isin doc_status [''Picking List''])
                                 (isin edi_status [''AX Load Failure''])))))
      else Inr t)"

section \<open>Deduplication (lines 101 and 102)\<close>

text \<open>
  \<^verbatim>\<open>drop_duplicates(subset=labels)\<close> keeps a row unless an earlier row has the same cells in
  every column whose label is in \<open>labels\<close>; missing values count as equal to each other.
\<close>

definition subset_key :: "string list \<Rightarrow> string list \<Rightarrow> cell list \<Rightarrow> cell list" where
  "subset_key cols labels r = map snd (filter (\<lambda>(c, v). c \<in> set labels) (zip cols r))"

fun drop_seen :: "('r \<Rightarrow> 'k) \<Rightarrow> 'k list \<Rightarrow> 'r list \<Rightarrow> 'r list" where
  "drop_seen key seen [] = []"
| "drop_seen key seen (r # rs) =
     (if key r \<in> set seen then drop_seen key seen rs
      else r # drop_seen key (key r # seen) rs)"

definition drop_duplicates :: "string list \<Rightarrow> table \<Rightarrow> table" where
  "drop_duplicates labels t =
     t\<lparr>rows := drop_seen (subset_key (columns t) labels) [] (rows t)\<rparr>"

definition dedupe_step :: "table \<Rightarrow> table" where
  "dedupe_step t =
     (if ''Pickticket'' \<in> set (columns t) then drop_duplicates [''Pickticket''] t else t)"

section \<open>The pipeline (lines 44 to 102)\<close>

text \<open>
  The three frames are objects that line 44 to 46 update in place, so the pipeline takes
  the three of them as a state and returns it next to its result. Every later statement
  builds a new frame (\<^verbatim>\<open>pd.merge\<close>, indexing, \<^verbatim>\<open>rename\<close> and \<^verbatim>\<open>drop_duplicates\<close> return copies).
\<close>

record frames =
  df1 :: table
  df2 :: table
  df3 :: table

definition trim_headers :: "frames \<Rightarrow> frames" where
  "trim_headers fr =
     \<lparr>df1 = strip_columns (df1 fr), df2 = strip_columns (df2 fr), df3 = strip_columns (df3 fr)\<rparr>"

definition first_join :: "table \<Rightarrow> table \<Rightarrow> error + table" where
  "first_join l r =
     (case pd_merge_left l r ''Pickticket'' ''AXReferenceID'' of
        Inl e \<Rightarrow> Inl e | Inr m \<Rightarrow> Inr (strip_columns m))"

definition second_join :: "table \<Rightarrow> table \<Rightarrow> error + table" where
  "second_join l r = pd_merge_left l r ''Pickticket'' ''PickRoute''"

definition joined_and_renamed :: "frames \<Rightarrow> error + table" where
  "joined_and_renamed fr =
     (case first_join (df1 fr) (df2 fr) of Inl e \<Rightarrow> Inl e | Inr merged_df \<Rightarrow>
       (case second_join (first_projection merged_df) (df3 fr) of Inl e \<Rightarrow> Inl e
        | Inr final_merge_df \<Rightarrow> Inr (rename_columns (second_projection final_merge_df))))"

definition merge_and_shape :: "frames \<Rightarrow> error + table" where
  "merge_and_shape fr =
     (case joined_and_renamed fr of Inl e \<Rightarrow> Inl e
      | Inr final_merge_df \<Rightarrow>
          (case filter_step final_merge_df of Inl e \<Rightarrow> Inl e
           | Inr filtered_df \<Rightarrow> Inr (dedupe_step filtered_df)))"

definition reconcile_frames :: "frames \<Rightarrow> (error + table) \<times> frames" where
  "reconcile_frames fr0 =
     (let fr = trim_headers fr0 in
      (case check_required
              [(''Shipment_History___Total'', df1 fr, ''Pickticket''),
               (''EDIB2BiReportV2'', df2 fr, ''AXReferenceID''),
               (''EDI940Report_withCostV2.0'', df3 fr, ''PickRoute'')] of
         Inl e \<Rightarrow> Inl e
       | Inr _ \<Rightarrow> merge_and_shape fr,
       fr))"

definition reconcile :: "table \<Rightarrow> table \<Rightarrow> table \<Rightarrow> error + table" where
  "reconcile shipment_history edib2bi edi940 =
     fst (reconcile_frames \<lparr>df1 = shipment_history, df2 = edib2bi, df3 = edi940\<rparr>)"

section \<open>The worked example\<close>

definition ex_shipment_history :: table where
  "ex_shipment_history =
     \<lparr>columns = [''Pickticket'', ''Warehouse''], rows = [[Str ''P1'', Str ''W1'']]\<rparr>"

definition ex_edib2bi :: table where
  "ex_edib2bi =
     \<lparr>columns = [''AXReferenceID'', ''InvoiceNumber''], rows = [[Str ''P1'', Str ''X1'']]\<rparr>"

definition ex_edi940 :: table where
  "ex_edi940 =
     \<lparr>columns = [''PickRoute'', ''SalesHeaderDocStatus''],
      rows = [[Str ''P1'', Str ''Picking List'']]\<rparr>"

definition ex_renamed :: table where
  "ex_renamed =
     \<lparr>columns = [''Pickticket'', ''Warehouse'', ''Received in EDI?'', ''Found in AX DATa?'',
                 ''SalesHeaderDocStatus''],
      rows = [[Str ''P1'', Str ''W1'', Str ''X1'', Str ''P1'', Str ''Picking List'']]\<rparr>"

definition ex_final_merge :: table where
  "ex_final_merge =
     \<lparr>columns = [''Warehouse'', ''Pickticket'', ''InvoiceNumber'', ''PickRoute'',
                 ''SalesHeaderDocStatus''],
      rows = [[Str ''W1'', Str ''P1'', Str ''X1'', Str ''P1'', Str ''Picking List'']]\<rparr>"

definition ex_statuses :: table where
  "ex_statuses =
     \<lparr>columns = [''Pickticket'', ''SalesHeaderDocStatus'', ''EDI Processing Status''],
      rows = [[Str ''P1'', Str ''Picking List'', Str ''AX Load Failure''],
              [Str ''P2'', Str ''Picking List'', Str ''OK''],
              [Str ''P3'', Str ''Other'', Str ''AX Load Failure''],
              [Str ''P4'', Str ''Other'', Str ''OK''],
              [Str ''P5'', Str ''picking list'', Str ''AX Load Failure''],
              [Str ''P6'', Str ''Picking List'', Str ''AX Load Failure ''],
              [Str ''P7'', Null, Str ''AX Load Failure'']]\<rparr>"

definition ex_duplicates :: table where
  "ex_duplicates =
     \<lparr>columns = [''Pickticket'', ''Warehouse''],
      rows = [[Str ''P1'', Str ''W1''], [Null, Str ''W2''], [Str ''P2'', Str ''W3''],
              [Str ''P1'', Str ''W4''], [Null, Str ''W5'']]\<rparr>"

definition ex_repeated_rows :: table where
  "ex_repeated_rows =
     \<lparr>columns = [''Pickticket'', ''Warehouse''],
      rows = [[Str ''P1'', Str ''W1''], [Str ''P2'', Str ''W2''], [Str ''P1'', Str ''W1'']]\<rparr>"

definition ex_edib2bi_status :: table where
  "ex_edib2bi_status =
     \<lparr>columns = [''AXReferenceID'', ''StatusSummary''],
      rows = [[Str ''P1'', Str ''AX Load Failure'']]\<rparr>"

definition ex_edi940_padded :: table where
  "ex_edi940_padded =
     \<lparr>columns = [''PickRoute'', ''SalesHeaderDocStatus'', ''SalesHeaderDocStatus ''],
      rows = [[Str ''P1'', Str ''Other'', Str ''Picking List'']]\<rparr>"

definition ex_repeated_status :: table where
  "ex_repeated_status =
     \<lparr>columns = [''Pickticket'', ''Warehouse'', ''EDI Processing Status'', ''Found in AX DATa?'',
                 ''SalesHeaderDocStatus'', ''SalesHeaderDocStatus''],
      rows = [[Str ''P1'', Str ''W1'', Str ''AX Load Failure'', Str ''P1'', Str ''Other'',
               Str ''Picking List'']]\<rparr>"


definition ex_no_pickticket :: table where
  "ex_no_pickticket = \<lparr>columns = [''Warehouse''], rows = [[Str ''W1'']]\<rparr>"

definition ex_edib2bi_pickticket :: table where
  "ex_edib2bi_pickticket =
     \<lparr>columns = [''AXReferenceID'', ''Pickticket''], rows = [[Str ''P1'', Str ''P1'']]\<rparr>"

definition ex_edib2bi_warehouse :: table where
  "ex_edib2bi_warehouse =
     \<lparr>columns = [''AXReferenceID'', ''Warehouse''], rows = [[Str ''P1'', Str ''W2'']]\<rparr>"

definition ex_edi940_warehouse :: table where
  "ex_edi940_warehouse =
     \<lparr>columns = [''PickRoute'', ''Warehouse''], rows = [[Str ''P1'', Str ''W3'']]\<rparr>"

definition ex_collision_merged :: table where
  "ex_collision_merged =
     \<lparr>columns = [''Pickticket'', ''Warehouse_x'', ''AXReferenceID'', ''Warehouse_y''],
      rows = [[Str ''P1'', Str ''W1'', Str ''P1'', Str ''W2'']]\<rparr>"

definition ex_collision_result :: table where
  "ex_collision_result =
     \<lparr>columns = [''Pickticket'', ''Found in AX DATa?'', ''SalesHeaderDocStatus''],
      rows = [[Str ''P1'', Str ''P1'', Str ''Picking List'']]\<rparr>"

definition ex_plain_merged :: table where
  "ex_plain_merged =
     \<lparr>columns = [''Pickticket'', ''Warehouse'', ''AXReferenceID'', ''InvoiceNumber''],
      rows = [[Str ''P1'', Str ''W1'', Str ''P1'', Str ''X1'']]\<rparr>"

definition ex_collision_final :: table where
  "ex_collision_final =
     \<lparr>columns = [''Warehouse_x'', ''Pickticket'', ''InvoiceNumber'', ''PickRoute'',
                 ''Warehouse_y''],
      rows = [[Str ''W1'', Str ''P1'', Str ''X1'', Str ''P1'', Str ''W3'']]\<rparr>"

definition ex_late_collision_result :: table where
  "ex_late_collision_result =
     \<lparr>columns = [''Pickticket'', ''Received in EDI?'', ''Found in AX DATa?''],
      rows = [[Str ''P1'', Str ''X1'', Str ''P1'']]\<rparr>"

definition ex_returned_column :: table where
  "ex_returned_column =
     \<lparr>columns = [''Pickticket'', ''Warehouse'', ''Found in AX DATa?''],
      rows = [[Str ''P1'', Str ''W3'', Str ''P1'']]\<rparr>"




section \<open>Order of labels\<close>

definition precedes :: "'a \<Rightarrow> 'a \<Rightarrow> 'a list \<Rightarrow> bool" where
  "precedes a b xs = (a \<in> set xs \<and> b \<in> set xs \<and> index_of a xs < index_of b xs)"

section \<open>Facts about the steps\<close>

subsection \<open>Trimming\<close>

lemma dropWhile_id_iff: "dropWhile P xs = xs \<longleftrightarrow> (xs = [] \<or> \<not> P (hd xs))"
  by (cases xs) (auto simp: dropWhile_eq_Cons_conv)

lemma strip_fixed_iff:
  "strip s = s \<longleftrightarrow> (s = [] \<or> (\<not> is_space (hd s) \<and> \<not> is_space (last s)))"
proof (cases "s = []")
  case True then show ?thesis by (simp add: strip_def)
next
  case False
  show ?thesis
  proof (cases "is_space (hd s)")
    case True
    then have "length (dropWhile is_space s) < length s"
      using False by (cases s) (auto intro: le_imp_less_Suc length_dropWhile_le)
    moreover have "length (strip s) \<le> length (dropWhile is_space s)"
      unfolding strip_def using length_dropWhile_le[of is_space "rev (dropWhile is_space s)"] by simp
    ultimately have "strip s \<noteq> s" by auto
    with True False show ?thesis by simp
  next
    case h: False
    then have d: "dropWhile is_space s = s" using False by (cases s) auto
    have "strip s = s \<longleftrightarrow> dropWhile is_space (rev s) = rev s"
      unfolding strip_def d by (metis rev_rev_ident)
    also have "\<dots> \<longleftrightarrow> \<not> is_space (last s)"
      using False by (simp add: dropWhile_id_iff hd_rev)
    finally show ?thesis using h False by simp
  qed
qed

lemma strip_idem: "strip (strip s) = strip s"
proof -
  let ?d = "dropWhile is_space s"
  let ?e = "dropWhile is_space (rev ?d)"
  have e: "strip s = rev ?e" by (simp add: strip_def)
  show ?thesis
  proof (cases "?e = []")
    case True
    with e have "strip s = []" by simp
    moreover have "strip [] = []" by (simp add: strip_def)
    ultimately show ?thesis by simp
  next
    case False
    then have l: "\<not> is_space (hd ?e)" by (metis hd_dropWhile)
    from False have dne: "?d \<noteq> []" by (metis dropWhile.simps(1) rev.simps(1))
    then have h: "\<not> is_space (hd ?d)" by (metis hd_dropWhile)
    obtain n where "?e = drop n (rev ?d)" by (metis dropWhile_eq_drop)
    then have "rev ?e = take (length ?d - n) ?d" by (simp add: rev_drop)
    moreover have "rev ?e \<noteq> []" using False by simp
    ultimately have "hd (rev ?e) = hd ?d" by (metis hd_take take_eq_Nil2 not_gr_zero take_Nil take0)
    then have "\<not> is_space (hd (strip s))" using h e by simp
    moreover have "\<not> is_space (last (strip s))" using l False e by (simp add: last_rev)
    ultimately show ?thesis by (simp add: strip_fixed_iff)
  qed
qed

lemma strip_suffixed:
  assumes "strip s = s" and "suf \<noteq> []" and "\<not> is_space (hd suf)" and "\<not> is_space (last suf)"
  shows "strip (s @ suf) = s @ suf"
  using assms by (cases "s = []") (auto simp: strip_fixed_iff)

subsection \<open>Dropping rows whose key was seen\<close>

lemma drop_seen_subseq: "subseq (drop_seen key seen rs) rs"
  by (induction rs arbitrary: seen) auto

lemma drop_seen_set: "set (drop_seen key seen rs) \<subseteq> set rs"
  by (induction rs arbitrary: seen) auto

lemma drop_seen_keys: "key ` set (drop_seen key seen rs) = key ` set rs - set seen"
  by (induction rs arbitrary: seen) auto

lemma drop_seen_distinct: "distinct (map key (drop_seen key seen rs))"
  by (induction rs arbitrary: seen) (auto simp: drop_seen_keys)

lemma drop_seen_find:
  "find (\<lambda>r. key r = v) (drop_seen key seen rs) =
     (if v \<in> set seen then None else find (\<lambda>r. key r = v) rs)"
  by (induction rs arbitrary: seen) auto

lemma drop_seen_filter:
  "filter (\<lambda>r. key r = v) (drop_seen key seen rs) =
     (if v \<in> set seen then [] else take 1 (filter (\<lambda>r. key r = v) rs))"
  by (induction rs arbitrary: seen) auto

lemma filter_upt_Suc:
  "filter P [0..<Suc n] = (if P 0 then [0] else []) @ map Suc (filter (\<lambda>i. P (Suc i)) [0..<n])"
proof -
  have "[0..<Suc n] = 0 # map Suc [0..<n]"
    by (simp add: upt_conv_Cons map_Suc_upt del: upt_Suc)
  then show ?thesis by (simp add: filter_map comp_def del: upt_Suc)
qed

lemma drop_seen_first_occurrences:
  "drop_seen key seen rs =
     map (\<lambda>i. rs ! i)
       (filter (\<lambda>i. key (rs ! i) \<notin> set seen \<and> (\<forall>j<i. key (rs ! j) \<noteq> key (rs ! i)))
               [0..<length rs])"
proof (induction rs arbitrary: seen)
  case Nil
  then show ?case by simp
next
  case (Cons r rs)
  have split: "(\<forall>j<Suc i. key ((r # rs) ! j) \<noteq> v) \<longleftrightarrow>
               (key r \<noteq> v \<and> (\<forall>j<i. key (rs ! j) \<noteq> v))" for i v
    by (auto simp: less_Suc_eq_0_disj)
  show ?case
  proof (cases "key r \<in> set seen")
    case True
    have "filter (\<lambda>i. key (rs ! i) \<notin> set seen \<and> key r \<noteq> key (rs ! i) \<and>
                      (\<forall>j<i. key (rs ! j) \<noteq> key (rs ! i))) [0..<length rs]
        = filter (\<lambda>i. key (rs ! i) \<notin> set seen \<and>
                      (\<forall>j<i. key (rs ! j) \<noteq> key (rs ! i))) [0..<length rs]"
      using True by (intro filter_cong) auto
    with True show ?thesis
      by (simp add: filter_upt_Suc split Cons.IH comp_def del: upt_Suc)
  next
    case False
    have "filter (\<lambda>i. key (rs ! i) \<notin> set seen \<and> key r \<noteq> key (rs ! i) \<and>
                      (\<forall>j<i. key (rs ! j) \<noteq> key (rs ! i))) [0..<length rs]
        = filter (\<lambda>i. key (rs ! i) \<notin> set (key r # seen) \<and>
                      (\<forall>j<i. key (rs ! j) \<noteq> key (rs ! i))) [0..<length rs]"
      by (intro filter_cong) auto
    with False show ?thesis
      by (simp add: filter_upt_Suc split Cons.IH comp_def del: upt_Suc)
  qed
qed
subsection \<open>Masks\<close>

lemma select_by_mask: "map fst (filter snd (zip xs (map f xs))) = filter f xs"
  by (induction xs) auto

lemma mask_and_map: "mask_and (map f xs) (map g xs) = map (\<lambda>x. f x \<and> g x) xs"
  by (induction xs) (auto simp: mask_and_def)

lemma isin_single:
  "isin cells [x] = map (\<lambda>v. v = Str x) cells"
  unfolding isin_def by (rule map_cong) (auto split: cell.splits)

lemma count_list_one_mem: "count_list xs x = 1 \<Longrightarrow> x \<in> set xs"
  by (metis count_list_0_iff zero_neq_one)

lemma filter_step_rows:
  assumes "count_list (columns t) ''SalesHeaderDocStatus'' = 1"
    and "count_list (columns t) ''EDI Processing Status'' = 1"
  shows "filter_step t =
     Inr (t\<lparr>rows :=
       filter (\<lambda>r. r ! index_of ''SalesHeaderDocStatus'' (columns t) = Str ''Picking List'' \<and>
                   r ! index_of ''EDI Processing Status'' (columns t) = Str ''AX Load Failure'')
              (rows t)\<rparr>)"
  using assms count_list_one_mem[OF assms(1)] count_list_one_mem[OF assms(2)]
  by (simp add: filter_step_def select_rows_def isin_single get_column_def
                mask_and_map select_by_mask)

lemma filter_step_columns: "filter_step t = Inr u \<Longrightarrow> columns u = columns t"
  by (auto simp: filter_step_def select_rows_def split: if_splits sum.splits)

subsection \<open>Keys\<close>

lemma filter_zip_absent:
  "c \<notin> set xs \<Longrightarrow> filter (\<lambda>(a, b). a = c) (zip xs vs) = []"
  by (induction xs arbitrary: vs) (auto simp: zip_Cons1 split: list.splits)

lemma subset_key_single:
  "count_list cols c = 1 \<Longrightarrow> length r = length cols \<Longrightarrow>
     subset_key cols [c] r = [r ! index_of c cols]"
proof (induction cols arbitrary: r)
  case Nil then show ?case by simp
next
  case (Cons x xs)
  then obtain v vs where r: "r = v # vs" by (cases r) auto
  show ?case
  proof (cases "x = c")
    case True
    with Cons.prems have "c \<notin> set xs" by (simp add: count_list_0_iff)
    then show ?thesis using True r by (simp add: subset_key_def filter_zip_absent)
  next
    case False
    with Cons.prems r have "subset_key xs [c] vs = [vs ! index_of c xs]"
      by (intro Cons.IH) auto
    then show ?thesis using False r by (simp add: subset_key_def)
  qed
qed

lemma dedupe_step_columns: "columns (dedupe_step t) = columns t"
  by (simp add: dedupe_step_def drop_duplicates_def)

lemma dedupe_step_rows:
  "''Pickticket'' \<in> set (columns t) \<Longrightarrow>
     rows (dedupe_step t) = drop_seen (subset_key (columns t) [''Pickticket'']) [] (rows t)"
  by (simp add: dedupe_step_def drop_duplicates_def)

subsection \<open>Projections\<close>

lemma filter_eq_replicate: "filter (\<lambda>d. d = c) xs = replicate (count_list xs c) c"
  by (induction xs) auto

lemma map_nth_positions: "map (\<lambda>i. cols ! i) (positions cols c) = replicate (count_list cols c) c"
proof -
  have "map (\<lambda>i. cols ! i) (positions cols c) = filter (\<lambda>d. d = c) (map (\<lambda>i. cols ! i) [0..<length cols])"
    by (simp add: positions_def filter_map comp_def)
  then show ?thesis by (simp add: map_nth filter_eq_replicate)
qed

lemma select_columns_columns:
  "columns (select_columns labels t) =
     concat (map (\<lambda>c. replicate (count_list (columns t) c) c) labels)"
  by (simp add: select_columns_def Let_def map_concat comp_def map_nth_positions)

lemma present_labels_columns:
  "concat (map (\<lambda>c. replicate (count_list cols c) c) [c \<leftarrow> allow. c \<in> set cols]) =
   concat (map (\<lambda>c. replicate (count_list cols c) c) allow)"
  by (induction allow) (auto simp: count_list_0_iff)

lemma second_projection_columns:
  "columns (second_projection t) =
     concat (map (\<lambda>c. replicate (count_list (columns t) c) c) final_columns)"
  by (simp add: second_projection_def select_columns_columns present_labels_columns)

lemma first_projection_columns:
  "columns (first_projection t) =
     concat (map (\<lambda>c. replicate (count_list (columns t) c) c) first_columns)"
  by (simp add: first_projection_def select_columns_columns present_labels_columns)

lemma distinct_count_list: "distinct xs \<Longrightarrow> count_list xs x = (if x \<in> set xs then 1 else 0)"
  by (induction xs) auto

lemma distinct_projection:
  "distinct cols \<Longrightarrow>
     concat (map (\<lambda>c. replicate (count_list cols c) c) allow) = filter (\<lambda>c. c \<in> set cols) allow"
  by (induction allow) (auto simp: distinct_count_list)

lemma set_projection:
  "set (concat (map (\<lambda>c. replicate (count_list cols c) c) allow)) = set allow \<inter> set cols"
  by (induction allow) (auto simp: count_list_0_iff)

lemma index_of_after_replicate:
  "x \<noteq> y \<Longrightarrow> index_of x (replicate n y @ x # zs) = n"
  by (induction n) auto

lemma rename_label_Pickticket: "rename_label x = ''Pickticket'' \<longleftrightarrow> x = ''Pickticket''"
  by (simp add: rename_label_def rename_map_def)

subsection \<open>The final allow-list and the columns of the result\<close>

lemma final_columns_split:
  "final_columns = [''Pickticket'', ''Warehouse''] @ drop 2 first_columns @
       [''PickRoute'', ''SalesHeaderStatus'', ''SalesHeaderDocStatus'',
        ''PickModeOfDelivery'', ''PickCreatedDate'', ''DeliveryDate'']"
  by (simp add: final_columns_def first_columns_def)

lemma second_projection_head:
  assumes "''Pickticket'' \<in> set (columns t)"
  shows "\<exists>n rest. columns (second_projection t) = ''Pickticket'' # replicate n ''Pickticket'' @
            replicate (count_list (columns t) ''Warehouse'') ''Warehouse'' @ rest"
proof -
  from assms obtain n where n: "count_list (columns t) ''Pickticket'' = Suc n"
    by (metis count_list_0_iff not0_implies_Suc)
  define rest where "rest = drop 2 final_columns"
  have fc: "final_columns = ''Pickticket'' # ''Warehouse'' # rest"
    by (simp add: final_columns_def rest_def)
  have "columns (second_projection t) =
      replicate (Suc n) ''Pickticket'' @ replicate (count_list (columns t) ''Warehouse'') ''Warehouse'' @
      concat (map (\<lambda>c. replicate (count_list (columns t) c) c) rest)"
    by (simp add: second_projection_columns fc n)
  then show ?thesis by auto
qed

lemma columns_of_result:
  assumes "reconcile a b c = Inr t"
  shows "\<exists>f. columns t = map rename_label (columns (second_projection f))"
proof -
  from assms obtain u v where u: "joined_and_renamed
      (trim_headers \<lparr>df1 = a, df2 = b, df3 = c\<rparr>) = Inr u"
    and v: "filter_step u = Inr v" and t: "t = dedupe_step v"
    by (auto simp: reconcile_def reconcile_frames_def Let_def merge_and_shape_def
             split: sum.splits)
  from u obtain f where "u = rename_columns (second_projection f)"
    by (auto simp: joined_and_renamed_def split: sum.splits)
  then show ?thesis
    using filter_step_columns[OF v]
    by (auto simp: t dedupe_step_columns rename_columns_def)
qed

subsection \<open>Rows of the left join\<close>

lemma join_row_unmatched:
  assumes "\<forall>r \<in> set rrows. r ! rpos \<noteq> l ! lpos"
  shows "join_row lpos rpos w rrows l = [l @ replicate w Null]"
proof -
  from assms have "filter (\<lambda>r. r ! rpos = l ! lpos) rrows = []"
    by (simp add: filter_empty_conv)
  then show ?thesis by (simp add: join_row_def)
qed






lemma join_rows_all_unmatched:
  assumes "\<forall>l \<in> set lrows. \<forall>r \<in> set rrows. r ! rpos \<noteq> l ! lpos"
  shows "concat (map (join_row lpos rpos w rrows) lrows) = map (\<lambda>l. l @ replicate w Null) lrows"
  using assms by (induction lrows) (simp_all add: join_row_unmatched)

subsection \<open>What a successful join returns\<close>

lemma get_label_position_Inr:
  "get_label_position t c = Inr p \<Longrightarrow> count_list (columns t) c = 1 \<and> p = index_of c (columns t)"
  by (simp add: get_label_position_def split: if_splits)

lemma get_label_position_not_missing:
  "get_label_position t c \<noteq> Inl (MissingColumn n d cs)"
  by (simp add: get_label_position_def)

lemma items_overlap_Inr:
  "items_overlap_with_suffix L R = Inr (ll, rl) \<Longrightarrow>
     ll = map (renamer L R ''_x'') L \<and> rl = map (renamer L R ''_y'') R"
  by (simp add: items_overlap_with_suffix_def Let_def split: if_splits)

lemma items_overlap_not_missing:
  "items_overlap_with_suffix L R \<noteq> Inl (MissingColumn n d cs)"
  by (simp add: items_overlap_with_suffix_def Let_def)

lemma pd_merge_left_Inr:
  assumes "pd_merge_left l r lk rk = Inr m"
  shows "count_list (columns l) lk = 1 \<and> count_list (columns r) rk = 1 \<and>
         m = \<lparr>columns = map (renamer (columns l) (columns r) ''_x'') (columns l) @
                       map (renamer (columns l) (columns r) ''_y'') (columns r),
              rows = concat (map (join_row (index_of lk (columns l)) (index_of rk (columns r))
                                       (length (columns r)) (rows r)) (rows l))\<rparr>"
proof -
  obtain rpos where rp: "get_label_position r rk = Inr rpos"
    using assms by (cases "get_label_position r rk") (simp_all add: pd_merge_left_def)
  obtain lpos where lp: "get_label_position l lk = Inr lpos"
    using assms rp by (cases "get_label_position l lk") (simp_all add: pd_merge_left_def)
  obtain ll rl where ov: "items_overlap_with_suffix (columns l) (columns r) = Inr (ll, rl)"
    using assms rp lp
    by (cases "items_overlap_with_suffix (columns l) (columns r)")
       (auto simp add: pd_merge_left_def)
  from assms rp lp ov have m: "m = \<lparr>columns = ll @ rl,
      rows = concat (map (join_row lpos rpos (length (columns r)) (rows r)) (rows l))\<rparr>"
    by (simp add: pd_merge_left_def)
  from get_label_position_Inr[OF rp] get_label_position_Inr[OF lp] items_overlap_Inr[OF ov] m
  show ?thesis by simp
qed

lemma pd_merge_left_not_missing:
  "pd_merge_left l r lk rk \<noteq> Inl (MissingColumn n c cs)"
proof (cases "get_label_position r rk")
  case (Inl e)
  then show ?thesis using get_label_position_not_missing[of r rk n c cs]
    by (simp add: pd_merge_left_def)
next
  case rp: (Inr rpos)
  show ?thesis
  proof (cases "get_label_position l lk")
    case (Inl e)
    then show ?thesis using rp get_label_position_not_missing[of l lk n c cs]
      by (simp add: pd_merge_left_def)
  next
    case lp: (Inr lpos)
    show ?thesis
    proof (cases "items_overlap_with_suffix (columns l) (columns r)")
      case (Inl e)
      then show ?thesis
        using rp lp items_overlap_not_missing[of "columns l" "columns r" n c cs]
        by (simp add: pd_merge_left_def)
    next
      case (Inr p)
      then show ?thesis using rp lp by (cases p) (simp add: pd_merge_left_def)
    qed
  qed
qed

lemma first_join_Inr:
  assumes "first_join l r = Inr m"
  shows "\<exists>m0. pd_merge_left l r ''Pickticket'' ''AXReferenceID'' = Inr m0 \<and>
              rows m = rows m0 \<and> columns m = map strip (columns m0)"
proof (cases "pd_merge_left l r ''Pickticket'' ''AXReferenceID''")
  case (Inl e)
  with assms show ?thesis by (simp add: first_join_def)
next
  case (Inr m0)
  with assms have "m = strip_columns m0" by (simp add: first_join_def)
  then show ?thesis using Inr by (simp add: strip_columns_def)
qed

lemma first_join_not_missing: "first_join l r \<noteq> Inl (MissingColumn n c cs)"
  using pd_merge_left_not_missing[of l r "''Pickticket''" "''AXReferenceID''" n c cs]
  by (cases "pd_merge_left l r ''Pickticket'' ''AXReferenceID''") (simp_all add: first_join_def)





subsection \<open>The frames after the call\<close>




subsection \<open>Errors after the check of the required columns\<close>

lemma get_column_not_missing: "get_column t c \<noteq> Inl (MissingColumn n d cs)"
  by (simp add: get_column_def)

lemma filter_step_not_missing: "filter_step t \<noteq> Inl (MissingColumn n d cs)"
proof (cases "get_column t ''SalesHeaderDocStatus''")
  case (Inl e)
  with get_column_not_missing[of t "''SalesHeaderDocStatus''" n d cs]
  show ?thesis by (auto simp: filter_step_def)
next
  case a: (Inr x)
  show ?thesis
  proof (cases "get_column t ''EDI Processing Status''")
    case (Inl e)
    with a get_column_not_missing[of t "''EDI Processing Status''" n d cs]
    show ?thesis by (auto simp: filter_step_def)
  next
    case (Inr y)
    with a show ?thesis by (simp add: filter_step_def)
  qed
qed

lemma second_join_not_missing: "second_join l r \<noteq> Inl (MissingColumn n c cs)"
  by (simp add: second_join_def pd_merge_left_not_missing)

lemma joined_and_renamed_not_missing: "joined_and_renamed fr \<noteq> Inl (MissingColumn n c cs)"
proof (cases "first_join (df1 fr) (df2 fr)")
  case (Inl e)
  with first_join_not_missing[of "df1 fr" "df2 fr" n c cs]
  show ?thesis by (auto simp: joined_and_renamed_def)
next
  case a: (Inr m)
  show ?thesis
  proof (cases "second_join (first_projection m) (df3 fr)")
    case (Inl e)
    with a second_join_not_missing[of "first_projection m" "df3 fr" n c cs]
    show ?thesis by (auto simp: joined_and_renamed_def)
  next
    case (Inr f)
    with a show ?thesis by (simp add: joined_and_renamed_def)
  qed
qed

lemma merge_and_shape_not_missing: "merge_and_shape fr \<noteq> Inl (MissingColumn n c cs)"
proof (cases "joined_and_renamed fr")
  case (Inl e)
  with joined_and_renamed_not_missing[of fr n c cs]
  show ?thesis by (auto simp: merge_and_shape_def)
next
  case a: (Inr u)
  show ?thesis
  proof (cases "filter_step u")
    case (Inl e)
    with a filter_step_not_missing[of u n c cs]
    show ?thesis by (auto simp: merge_and_shape_def)
  next
    case (Inr v)
    with a show ?thesis by (simp add: merge_and_shape_def)
  qed
qed

lemma reconcile_unfold:
  "reconcile a b c =
     (if ''Pickticket'' \<notin> set (map strip (columns a))
      then Inl (MissingColumn ''Shipment_History___Total'' ''Pickticket'' (map strip (columns a)))
      else if ''AXReferenceID'' \<notin> set (map strip (columns b))
      then Inl (MissingColumn ''EDIB2BiReportV2'' ''AXReferenceID'' (map strip (columns b)))
      else if ''PickRoute'' \<notin> set (map strip (columns c))
      then Inl (MissingColumn ''EDI940Report_withCostV2.0'' ''PickRoute'' (map strip (columns c)))
      else merge_and_shape (trim_headers \<lparr>df1 = a, df2 = b, df3 = c\<rparr>))"
  by (simp add: reconcile_def reconcile_frames_def Let_def trim_headers_def strip_columns_def)

subsection \<open>Labels after a join\<close>

lemma final_columns_plain:
  "list_all (\<lambda>c. \<not> suffix ''_x'' c \<and> \<not> suffix ''_y'' c \<and> strip c = c) final_columns"
  by code_simp

lemma final_columns_no_suffix:
  assumes "c \<in> set final_columns"
  shows "\<not> suffix ''_x'' c" and "\<not> suffix ''_y'' c" and "strip c = c"
  using assms final_columns_plain by (simp_all add: list_all_iff)

lemma first_in_final: "set first_columns \<subseteq> set final_columns"
proof -
  have "list_all (\<lambda>c. c \<in> set final_columns) first_columns" by code_simp
  then show ?thesis by (auto simp: list_all_iff)
qed

lemma rename_label_inj: "inj_on rename_label (set final_columns)"
proof -
  have "distinct (map rename_label final_columns)" by code_simp
  then show ?thesis by (simp add: distinct_map)
qed


lemma suffixed_label:
  "suffix sfx (d @ sfx)"
  by (simp add: suffix_def)

lemma merged_label_iff:
  assumes "\<not> suffix ''_x'' c" and "\<not> suffix ''_y'' c"
  shows "c \<in> set (map (renamer L R ''_x'') L @ map (renamer L R ''_y'') R)
         \<longleftrightarrow> (c \<in> set L \<or> c \<in> set R) \<and> \<not> (c \<in> set L \<and> c \<in> set R)"
proof
  assume "c \<in> set (map (renamer L R ''_x'') L @ map (renamer L R ''_y'') R)"
  then obtain d sfx where d: "d \<in> set L \<or> d \<in> set R" and c: "c = renamer L R sfx d"
    and sfx: "sfx = ''_x'' \<or> sfx = ''_y''"
    by auto
  show "(c \<in> set L \<or> c \<in> set R) \<and> \<not> (c \<in> set L \<and> c \<in> set R)"
  proof (cases "d \<in> set L \<and> d \<in> set R")
    case True
    then have "c = d @ sfx" using c by (simp add: renamer_def)
    then have "suffix sfx c" by (simp add: suffixed_label)
    with sfx assms show ?thesis by auto
  next
    case False
    with c have "c = d" by (auto simp: renamer_def)
    with d False show ?thesis by auto
  qed
next
  assume h: "(c \<in> set L \<or> c \<in> set R) \<and> \<not> (c \<in> set L \<and> c \<in> set R)"
  then have r: "renamer L R sfx c = c" for sfx by (auto simp: renamer_def)
  from h have "c \<in> set L \<or> c \<in> set R" by simp
  then show "c \<in> set (map (renamer L R ''_x'') L @ map (renamer L R ''_y'') R)"
  proof
    assume "c \<in> set L"
    then have "renamer L R ''_x'' c \<in> renamer L R ''_x'' ` set L" by (rule imageI)
    then show ?thesis by (simp add: r)
  next
    assume "c \<in> set R"
    then have "renamer L R ''_y'' c \<in> renamer L R ''_y'' ` set R" by (rule imageI)
    then show ?thesis by (simp add: r)
  qed
qed

lemma merged_collision:
  assumes "c \<in> set L" and "c \<in> set R"
  shows "c @ ''_x'' \<in> set (map (renamer L R ''_x'') L @ map (renamer L R ''_y'') R)"
    and "c @ ''_y'' \<in> set (map (renamer L R ''_x'') L @ map (renamer L R ''_y'') R)"
proof -
  from assms have r: "renamer L R sfx c = c @ sfx" for sfx by (simp add: renamer_def)
  from assms(1) have "renamer L R ''_x'' c \<in> renamer L R ''_x'' ` set L" by (rule imageI)
  then show "c @ ''_x'' \<in> set (map (renamer L R ''_x'') L @ map (renamer L R ''_y'') R)"
    by (simp add: r)
  from assms(2) have "renamer L R ''_y'' c \<in> renamer L R ''_y'' ` set R" by (rule imageI)
  then show "c @ ''_y'' \<in> set (map (renamer L R ''_x'') L @ map (renamer L R ''_y'') R)"
    by (simp add: r)
qed

lemma strip_renamer:
  assumes "strip d = d" and "sfx = ''_x'' \<or> sfx = ''_y''"
  shows "strip (renamer L R sfx d) = renamer L R sfx d"
proof (cases "d \<in> set L \<and> d \<in> set R")
  case True
  have "strip (d @ sfx) = d @ sfx"
    using assms by (intro strip_suffixed) (auto simp: is_space_def)
  with True show ?thesis by (simp add: renamer_def)
next
  case False
  with assms show ?thesis by (auto simp: renamer_def)
qed

lemma first_join_columns:
  assumes "first_join (strip_columns a) (strip_columns b) = Inr merged"
  shows "columns merged =
           map (renamer (map strip (columns a)) (map strip (columns b)) ''_x'') (map strip (columns a)) @
           map (renamer (map strip (columns a)) (map strip (columns b)) ''_y'') (map strip (columns b))"
proof -
  let ?L = "map strip (columns a)" and ?R = "map strip (columns b)"
  from first_join_Inr[OF assms] obtain m0 where
    m0: "pd_merge_left (strip_columns a) (strip_columns b) ''Pickticket'' ''AXReferenceID'' = Inr m0"
    and c: "columns merged = map strip (columns m0)" by blast
  from pd_merge_left_Inr[OF m0]
  have c0: "columns m0 = map (renamer ?L ?R ''_x'') ?L @ map (renamer ?L ?R ''_y'') ?R"
    by (simp add: strip_columns_def)
  have fixed: "strip (renamer ?L ?R sfx d) = renamer ?L ?R sfx d"
    if "d \<in> set ?L \<or> d \<in> set ?R" and "sfx = ''_x'' \<or> sfx = ''_y''" for d sfx
  proof -
    from that(1) have "strip d = d" by (auto simp: strip_idem)
    then show ?thesis using that(2) by (rule strip_renamer)
  qed
  have "map strip (map (renamer ?L ?R ''_x'') ?L) = map (renamer ?L ?R ''_x'') ?L"
    by (rule map_idI) (auto simp: fixed)
  moreover have "map strip (map (renamer ?L ?R ''_y'') ?R) = map (renamer ?L ?R ''_y'') ?R"
    by (rule map_idI) (auto simp: fixed)
  ultimately show ?thesis by (simp only: c c0 map_append)
qed

lemma second_join_columns:
  assumes "second_join proj e9 = Inr final"
  shows "columns final =
           map (renamer (columns proj) (columns e9) ''_x'') (columns proj) @
           map (renamer (columns proj) (columns e9) ''_y'') (columns e9)"
  using pd_merge_left_Inr[of proj e9 "''Pickticket''" "''PickRoute''" final] assms
  by (simp add: second_join_def)

lemma set_first_projection:
  "set (columns (first_projection t)) = set first_columns \<inter> set (columns t)"
  by (simp only: first_projection_columns set_projection)

lemma set_second_projection:
  "set (columns (second_projection t)) = set final_columns \<inter> set (columns t)"
  by (simp only: second_projection_columns set_projection)

lemma absent_from_renamed:
  assumes "c \<in> set final_columns" and "c \<notin> set (columns final)"
  shows "rename_label c \<notin> set (columns (rename_columns (second_projection final)))"
proof
  assume "rename_label c \<in> set (columns (rename_columns (second_projection final)))"
  then obtain d where d: "d \<in> set (columns (second_projection final))"
    and e: "rename_label d = rename_label c"
    by (auto simp: rename_columns_def)
  from d have "d \<in> set final_columns" and df: "d \<in> set (columns final)"
    by (simp_all add: set_second_projection)
  with e assms(1) have "d = c" using rename_label_inj by (auto dest: inj_onD)
  with df assms(2) show False by simp
qed

lemma reconcile_Inr:
  assumes "reconcile a b e = Inr t"
  shows "\<exists>merged final.
           first_join (strip_columns a) (strip_columns b) = Inr merged
           \<and> second_join (first_projection merged) (strip_columns e) = Inr final
           \<and> columns t = columns (rename_columns (second_projection final))"
proof -
  let ?fr = "trim_headers \<lparr>df1 = a, df2 = b, df3 = e\<rparr>"
  from assms have ms: "merge_and_shape ?fr = Inr t"
    by (auto simp: reconcile_unfold split: if_splits)
  then obtain u v where u: "joined_and_renamed ?fr = Inr u"
    and v: "filter_step u = Inr v" and t: "t = dedupe_step v"
    by (auto simp: merge_and_shape_def split: sum.splits)
  from u obtain merged final where
    m: "first_join (df1 ?fr) (df2 ?fr) = Inr merged"
    and f: "second_join (first_projection merged) (df3 ?fr) = Inr final"
    and uu: "u = rename_columns (second_projection final)"
    by (auto simp: joined_and_renamed_def split: sum.splits)
  have "columns t = columns u"
    using filter_step_columns[OF v] by (simp add: t dedupe_step_columns)
  with m f uu show ?thesis by (auto simp: trim_headers_def)
qed

section \<open>The end-to-end example\<close>

text \<open>
  Claim C1. On the three one-row tables of the example the pipeline succeeds. The table that
  reaches the filter has no column \<^verbatim>\<open>EDI Processing Status\<close>, so the filter returns it as it
  is, and the result has the single row with Pickticket \<^verbatim>\<open>P1\<close>, Warehouse \<^verbatim>\<open>W1\<close>,
  \<^verbatim>\<open>Received in EDI?\<close> \<^verbatim>\<open>X1\<close>, \<^verbatim>\<open>Found in AX DATa?\<close> \<^verbatim>\<open>P1\<close> and SalesHeaderDocStatus
  \<^verbatim>\<open>Picking List\<close>.
\<close>

theorem end_to_end_example:
  "joined_and_renamed
     (trim_headers \<lparr>df1 = ex_shipment_history, df2 = ex_edib2bi, df3 = ex_edi940\<rparr>)
     = Inr ex_renamed
   \<and> ''EDI Processing Status'' \<notin> set (columns ex_renamed)
   \<and> filter_step ex_renamed = Inr ex_renamed
   \<and> reconcile ex_shipment_history ex_edib2bi ex_edi940 =
       Inr \<lparr>columns = [''Pickticket'', ''Warehouse'', ''Received in EDI?'',
                        ''Found in AX DATa?'', ''SalesHeaderDocStatus''],
            rows = [[Str ''P1'', Str ''W1'', Str ''X1'', Str ''P1'', Str ''Picking List'']]\<rparr>"
  by code_simp

section \<open>The filter\<close>

text \<open>
  Claim C2. If \<^verbatim>\<open>SalesHeaderDocStatus\<close> or \<^verbatim>\<open>EDI Processing Status\<close> is not a column of the
  renamed table, the filter returns the table unchanged. If both are, each carried by exactly
  one column, the filter returns the table with the same columns whose rows are, in their
  order, the rows whose \<^verbatim>\<open>SalesHeaderDocStatus\<close> cell is the text \<^verbatim>\<open>Picking List\<close> and whose
  \<^verbatim>\<open>EDI Processing Status\<close> cell is the text \<^verbatim>\<open>AX Load Failure\<close>: a text in other case, a
  text with a trailing blank and a missing value do not pass. Presence alone, the guard of
  line 93, is not enough for this: see the example that follows the theorem.
\<close>

theorem filter_step_spec:
  "(''SalesHeaderDocStatus'' \<notin> set (columns t) \<or> ''EDI Processing Status'' \<notin> set (columns t)
      \<longrightarrow> filter_step t = Inr t)
   \<and> (count_list (columns t) ''SalesHeaderDocStatus'' = 1 \<and>
       count_list (columns t) ''EDI Processing Status'' = 1
      \<longrightarrow> (\<exists>u. filter_step t = Inr u \<and> columns u = columns t \<and>
             rows u =
               filter (\<lambda>r. r ! index_of ''SalesHeaderDocStatus'' (columns t) = Str ''Picking List'' \<and>
                           r ! index_of ''EDI Processing Status'' (columns t) = Str ''AX Load Failure'')
                      (rows t)))"
proof (intro conjI impI)
  assume "''SalesHeaderDocStatus'' \<notin> set (columns t) \<or> ''EDI Processing Status'' \<notin> set (columns t)"
  then show "filter_step t = Inr t" by (auto simp: filter_step_def)
next
  assume h: "count_list (columns t) ''SalesHeaderDocStatus'' = 1 \<and>
          count_list (columns t) ''EDI Processing Status'' = 1"
  then show "\<exists>u. filter_step t = Inr u \<and> columns u = columns t \<and>
             rows u =
               filter (\<lambda>r. r ! index_of ''SalesHeaderDocStatus'' (columns t) = Str ''Picking List'' \<and>
                           r ! index_of ''EDI Processing Status'' (columns t) = Str ''AX Load Failure'')
                      (rows t)"
    by (simp add: filter_step_rows)
qed

theorem filter_step_spec_witness:
  "count_list (columns ex_statuses) ''SalesHeaderDocStatus'' = 1
   \<and> count_list (columns ex_statuses) ''EDI Processing Status'' = 1
   \<and> (\<exists>u. filter_step ex_statuses = Inr u \<and> columns u = columns ex_statuses \<and>
          rows u = [[Str ''P1'', Str ''Picking List'', Str ''AX Load Failure'']])
   \<and> ''EDI Processing Status'' \<notin> set (columns ex_renamed)
   \<and> filter_step ex_renamed = Inr ex_renamed"
  using filter_step_spec[of ex_statuses] filter_step_spec[of ex_renamed]
  by (simp add: ex_statuses_def ex_renamed_def)

text \<open>
  The third file has the headers \<^verbatim>\<open>SalesHeaderDocStatus\<close> and \<^verbatim>\<open>SalesHeaderDocStatus\<close> followed
  by a blank. Lines 44 to 46 make them equal, both columns pass the join and the projection,
  and the renamed table has \<^verbatim>\<open>SalesHeaderDocStatus\<close> and \<^verbatim>\<open>EDI Processing Status\<close> among its
  labels, so the guard of line 93 holds. The table has one row, whose \<^verbatim>\<open>EDI Processing Status\<close>
  cell is \<^verbatim>\<open>AX Load Failure\<close> and which has two \<^verbatim>\<open>SalesHeaderDocStatus\<close> cells, \<^verbatim>\<open>Other\<close> and
  \<^verbatim>\<open>Picking List\<close>. The filter returns no table, and neither does the pipeline.
\<close>

theorem filter_step_spec_counterexample:
  "joined_and_renamed
     (trim_headers \<lparr>df1 = ex_shipment_history, df2 = ex_edib2bi_status, df3 = ex_edi940_padded\<rparr>)
     = Inr ex_repeated_status
   \<and> ''SalesHeaderDocStatus'' \<in> set (columns ex_repeated_status)
   \<and> ''EDI Processing Status'' \<in> set (columns ex_repeated_status)
   \<and> filter_step ex_repeated_status = Inl (NotAColumn ''SalesHeaderDocStatus'')
   \<and> reconcile ex_shipment_history ex_edib2bi_status ex_edi940_padded
       = Inl (NotAColumn ''SalesHeaderDocStatus'')"
  by code_simp

section \<open>Deduplication\<close>

text \<open>
  Claim C3. Without a \<^verbatim>\<open>Pickticket\<close> column the step returns its table unchanged. With one,
  the columns stay and the rows kept are exactly the rows of the input, taken in the order of
  the input, that no earlier row of the input equals in its Pickticket value: for every value
  the first row carrying it is kept and every later one is removed. In particular the rows
  kept are a subsequence of the rows given, no two of them have the same Pickticket value,
  and for every value the first row of the output carrying it is the first row of the input
  carrying it. The value compared is the Pickticket cell of the row.
\<close>

theorem dedupe_step_spec:
  "(''Pickticket'' \<notin> set (columns t) \<longrightarrow> dedupe_step t = t)
   \<and> (''Pickticket'' \<in> set (columns t) \<longrightarrow>
        columns (dedupe_step t) = columns t
        \<and> rows (dedupe_step t) =
            map (\<lambda>i. rows t ! i)
              (filter (\<lambda>i. \<forall>j<i. subset_key (columns t) [''Pickticket''] (rows t ! j)
                                  \<noteq> subset_key (columns t) [''Pickticket''] (rows t ! i))
                      [0..<length (rows t)])
        \<and> subseq (rows (dedupe_step t)) (rows t)
        \<and> distinct (map (subset_key (columns t) [''Pickticket'']) (rows (dedupe_step t)))
        \<and> (\<forall>v. find (\<lambda>r. subset_key (columns t) [''Pickticket''] r = v) (rows (dedupe_step t))
               = find (\<lambda>r. subset_key (columns t) [''Pickticket''] r = v) (rows t)))
   \<and> (count_list (columns t) ''Pickticket'' = 1 \<and> wf_table t \<longrightarrow>
        (\<forall>r \<in> set (rows t).
           subset_key (columns t) [''Pickticket''] r = [r ! index_of ''Pickticket'' (columns t)])
        \<and> rows (dedupe_step t) =
            map (\<lambda>i. rows t ! i)
              (filter (\<lambda>i. \<forall>j<i. rows t ! j ! index_of ''Pickticket'' (columns t)
                                  \<noteq> rows t ! i ! index_of ''Pickticket'' (columns t))
                      [0..<length (rows t)]))"
proof (intro conjI impI allI ballI)
  assume "''Pickticket'' \<notin> set (columns t)"
  then show "dedupe_step t = t" by (simp add: dedupe_step_def)
next
  show "columns (dedupe_step t) = columns t" by (rule dedupe_step_columns)
next
  assume "''Pickticket'' \<in> set (columns t)"
  then show "rows (dedupe_step t) =
            map (\<lambda>i. rows t ! i)
              (filter (\<lambda>i. \<forall>j<i. subset_key (columns t) [''Pickticket''] (rows t ! j)
                                  \<noteq> subset_key (columns t) [''Pickticket''] (rows t ! i))
                      [0..<length (rows t)])"
    by (simp add: dedupe_step_rows drop_seen_first_occurrences)
next
  assume "''Pickticket'' \<in> set (columns t)"
  then show "subseq (rows (dedupe_step t)) (rows t)"
    by (simp add: dedupe_step_rows drop_seen_subseq)
next
  assume "''Pickticket'' \<in> set (columns t)"
  then show "distinct (map (subset_key (columns t) [''Pickticket'']) (rows (dedupe_step t)))"
    by (simp add: dedupe_step_rows drop_seen_distinct)
next
  fix v
  assume "''Pickticket'' \<in> set (columns t)"
  then show "find (\<lambda>r. subset_key (columns t) [''Pickticket''] r = v) (rows (dedupe_step t))
               = find (\<lambda>r. subset_key (columns t) [''Pickticket''] r = v) (rows t)"
    by (simp add: dedupe_step_rows drop_seen_find)
next
  fix r
  assume "count_list (columns t) ''Pickticket'' = 1 \<and> wf_table t" and "r \<in> set (rows t)"
  then show "subset_key (columns t) [''Pickticket''] r = [r ! index_of ''Pickticket'' (columns t)]"
    by (intro subset_key_single) (auto simp: wf_table_def list_all_iff)
next
  let ?key = "subset_key (columns t) [''Pickticket'']"
  let ?p = "index_of ''Pickticket'' (columns t)"
  assume h: "count_list (columns t) ''Pickticket'' = 1 \<and> wf_table t"
  then have p: "''Pickticket'' \<in> set (columns t)" by (simp add: count_list_one_mem)
  have key: "?key (rows t ! i) = [rows t ! i ! ?p]" if "i < length (rows t)" for i
    using that h by (intro subset_key_single) (auto simp: wf_table_def list_all_iff)
  have "filter (\<lambda>i. \<forall>j<i. ?key (rows t ! j) \<noteq> ?key (rows t ! i)) [0..<length (rows t)]
      = filter (\<lambda>i. \<forall>j<i. rows t ! j ! ?p \<noteq> rows t ! i ! ?p) [0..<length (rows t)]"
    by (intro filter_cong) (auto simp: key)
  then show "rows (dedupe_step t) =
            map (\<lambda>i. rows t ! i)
              (filter (\<lambda>i. \<forall>j<i. rows t ! j ! ?p \<noteq> rows t ! i ! ?p) [0..<length (rows t)])"
    using p by (simp add: dedupe_step_rows drop_seen_first_occurrences)
qed

theorem dedupe_step_spec_witness:
  "''Pickticket'' \<in> set (columns ex_duplicates)
   \<and> count_list (columns ex_duplicates) ''Pickticket'' = 1 \<and> wf_table ex_duplicates
   \<and> rows (dedupe_step ex_duplicates) =
        [[Str ''P1'', Str ''W1''], [Null, Str ''W2''], [Str ''P2'', Str ''W3'']]
   \<and> count_list (columns ex_repeated_rows) ''Pickticket'' = 1 \<and> wf_table ex_repeated_rows
   \<and> rows (dedupe_step ex_repeated_rows) = [[Str ''P1'', Str ''W1''], [Str ''P2'', Str ''W2'']]
   \<and> map (\<lambda>i. rows ex_repeated_rows ! i)
       (filter (\<lambda>i. \<forall>j<i. rows ex_repeated_rows ! j ! index_of ''Pickticket'' (columns ex_repeated_rows)
                          \<noteq> rows ex_repeated_rows ! i ! index_of ''Pickticket'' (columns ex_repeated_rows))
               [0..<length (rows ex_repeated_rows)])
       = [[Str ''P1'', Str ''W1''], [Str ''P2'', Str ''W2'']]
   \<and> ''Pickticket'' \<notin> set (columns ex_edi940)
   \<and> dedupe_step ex_edi940 = ex_edi940"
  using dedupe_step_spec[of ex_duplicates] dedupe_step_spec[of ex_repeated_rows]
        dedupe_step_spec[of ex_edi940]
  by (simp add: ex_duplicates_def ex_repeated_rows_def ex_edi940_def wf_table_def
                dedupe_step_def drop_duplicates_def subset_key_def numeral_3_eq_3 All_less_Suc)

text \<open>
  Claim C9. Rows whose \<^verbatim>\<open>Pickticket\<close> cell is missing share one key: of all such rows of the
  table, the deduplication keeps the first and no other.
\<close>

theorem null_pickticket_one_key:
  assumes "count_list (columns t) ''Pickticket'' = 1" and "wf_table t"
  shows "filter (\<lambda>r. r ! index_of ''Pickticket'' (columns t) = Null) (rows (dedupe_step t))
       = take 1 (filter (\<lambda>r. r ! index_of ''Pickticket'' (columns t) = Null) (rows t))"
proof -
  let ?key = "subset_key (columns t) [''Pickticket'']"
  let ?k = "index_of ''Pickticket'' (columns t)"
  from assms(1) have p: "''Pickticket'' \<in> set (columns t)"
    by (metis count_list_0_iff zero_neq_one)
  have key: "?key r = [r ! ?k]" if "r \<in> set (rows t)" for r
    using that assms by (intro subset_key_single) (auto simp: wf_table_def list_all_iff)
  have sub: "set (rows (dedupe_step t)) \<subseteq> set (rows t)"
    using p by (simp add: dedupe_step_rows drop_seen_set)
  have "filter (\<lambda>r. r ! ?k = Null) (rows (dedupe_step t))
      = filter (\<lambda>r. ?key r = [Null]) (rows (dedupe_step t))"
    using key sub by (intro filter_cong) auto
  also have "\<dots> = take 1 (filter (\<lambda>r. ?key r = [Null]) (rows t))"
    using p by (simp add: dedupe_step_rows drop_seen_filter)
  also have "filter (\<lambda>r. ?key r = [Null]) (rows t) = filter (\<lambda>r. r ! ?k = Null) (rows t)"
    using key by (intro filter_cong) auto
  finally show ?thesis .
qed

theorem null_pickticket_one_key_witness:
  "count_list (columns ex_duplicates) ''Pickticket'' = 1 \<and> wf_table ex_duplicates
   \<and> filter (\<lambda>r. r ! index_of ''Pickticket'' (columns ex_duplicates) = Null)
            (rows (dedupe_step ex_duplicates)) = [[Null, Str ''W2'']]
   \<and> filter (\<lambda>r. r ! index_of ''Pickticket'' (columns ex_duplicates) = Null)
            (rows ex_duplicates) = [[Null, Str ''W2''], [Null, Str ''W5'']]"
  using null_pickticket_one_key[of ex_duplicates]
  by (simp add: ex_duplicates_def wf_table_def)

section \<open>The second projection\<close>

text \<open>
  Claim C6, as amended. The second projection keeps exactly the columns whose label is in
  its allow-list, in the order of that list. The list is \<^verbatim>\<open>Pickticket, Warehouse\<close>, then the
  first allow-list from its third label \<^verbatim>\<open>Order\<close> on, then \<^verbatim>\<open>PickRoute, SalesHeaderStatus,
  SalesHeaderDocStatus, PickModeOfDelivery, PickCreatedDate, DeliveryDate\<close>: it is the first
  list with its first two labels exchanged, followed by the six labels. So when both are
  present, \<^verbatim>\<open>Pickticket\<close> precedes \<^verbatim>\<open>Warehouse\<close> in the output.
\<close>

theorem second_projection_order:
  "columns (second_projection t) =
      concat (map (\<lambda>c. replicate (count_list (columns t) c) c) final_columns)
   \<and> final_columns = [''Pickticket'', ''Warehouse''] @ drop 2 first_columns @
       [''PickRoute'', ''SalesHeaderStatus'', ''SalesHeaderDocStatus'',
        ''PickModeOfDelivery'', ''PickCreatedDate'', ''DeliveryDate'']
   \<and> set (columns (second_projection t)) = set final_columns \<inter> set (columns t)
   \<and> (distinct (columns t) \<longrightarrow>
        columns (second_projection t) = filter (\<lambda>c. c \<in> set (columns t)) final_columns)
   \<and> (''Pickticket'' \<in> set (columns t) \<and> ''Warehouse'' \<in> set (columns t) \<longrightarrow>
        precedes ''Pickticket'' ''Warehouse'' (columns (second_projection t)))"
proof (intro conjI impI)
  show "columns (second_projection t) =
      concat (map (\<lambda>c. replicate (count_list (columns t) c) c) final_columns)"
    by (rule second_projection_columns)
  show "final_columns = [''Pickticket'', ''Warehouse''] @ drop 2 first_columns @
       [''PickRoute'', ''SalesHeaderStatus'', ''SalesHeaderDocStatus'',
        ''PickModeOfDelivery'', ''PickCreatedDate'', ''DeliveryDate'']"
    by (rule final_columns_split)
  show "set (columns (second_projection t)) = set final_columns \<inter> set (columns t)"
    by (simp only: second_projection_columns set_projection)
  show "columns (second_projection t) = filter (\<lambda>c. c \<in> set (columns t)) final_columns"
    if "distinct (columns t)"
    using that by (simp only: second_projection_columns distinct_projection)
  show "precedes ''Pickticket'' ''Warehouse'' (columns (second_projection t))"
    if h: "''Pickticket'' \<in> set (columns t) \<and> ''Warehouse'' \<in> set (columns t)"
  proof -
    from h obtain n rest where c: "columns (second_projection t) = ''Pickticket'' # replicate n ''Pickticket'' @
            replicate (count_list (columns t) ''Warehouse'') ''Warehouse'' @ rest"
      using second_projection_head by blast
    from h obtain m where m: "count_list (columns t) ''Warehouse'' = Suc m"
      by (metis count_list_0_iff not0_implies_Suc)
    have "index_of ''Warehouse'' (replicate n ''Pickticket'' @ ''Warehouse'' # (replicate m ''Warehouse'' @ rest)) = n"
      by (rule index_of_after_replicate) simp
    then show ?thesis by (simp add: precedes_def c m)
  qed
qed

theorem second_projection_order_witness:
  "distinct (columns ex_final_merge)
   \<and> ''Pickticket'' \<in> set (columns ex_final_merge) \<and> ''Warehouse'' \<in> set (columns ex_final_merge)
   \<and> columns (second_projection ex_final_merge) =
       [''Pickticket'', ''Warehouse'', ''InvoiceNumber'', ''PickRoute'', ''SalesHeaderDocStatus'']
   \<and> precedes ''Pickticket'' ''Warehouse'' (columns (second_projection ex_final_merge))"
proof -
  have d: "distinct (columns ex_final_merge)" by (simp add: ex_final_merge_def)
  have p: "''Pickticket'' \<in> set (columns ex_final_merge)" by (simp add: ex_final_merge_def)
  have w: "''Warehouse'' \<in> set (columns ex_final_merge)" by (simp add: ex_final_merge_def)
  have c: "filter (\<lambda>c. c \<in> set (columns ex_final_merge)) final_columns =
       [''Pickticket'', ''Warehouse'', ''InvoiceNumber'', ''PickRoute'', ''SalesHeaderDocStatus'']"
    by (simp add: ex_final_merge_def final_columns_def)
  from second_projection_order[of ex_final_merge] d
  have "columns (second_projection ex_final_merge) =
          filter (\<lambda>c. c \<in> set (columns ex_final_merge)) final_columns" by blast
  with c have cols: "columns (second_projection ex_final_merge) =
       [''Pickticket'', ''Warehouse'', ''InvoiceNumber'', ''PickRoute'', ''SalesHeaderDocStatus'']"
    by simp
  from second_projection_order[of ex_final_merge] p w
  have "precedes ''Pickticket'' ''Warehouse'' (columns (second_projection ex_final_merge))"
    by blast
  with d p w cols show ?thesis by blast
qed

text \<open>
  The claim as written fails: the allow-list of the second projection is not the first list
  followed by the six labels, and on the table the second join produces in the worked
  example, where both labels are present, \<^verbatim>\<open>Warehouse\<close> does not precede \<^verbatim>\<open>Pickticket\<close>.
\<close>

theorem second_projection_order_counterexample:
  "final_columns \<noteq> first_columns @
       [''PickRoute'', ''SalesHeaderStatus'', ''SalesHeaderDocStatus'',
        ''PickModeOfDelivery'', ''PickCreatedDate'', ''DeliveryDate'']
   \<and> second_join (first_projection (strip_columns
        \<lparr>columns = [''Pickticket'', ''Warehouse'', ''AXReferenceID'', ''InvoiceNumber''],
         rows = [[Str ''P1'', Str ''W1'', Str ''P1'', Str ''X1'']]\<rparr>)) ex_edi940 = Inr ex_final_merge
   \<and> ''Warehouse'' \<in> set (columns ex_final_merge)
   \<and> ''Pickticket'' \<in> set (columns ex_final_merge)
   \<and> columns (second_projection ex_final_merge) =
       [''Pickticket'', ''Warehouse'', ''InvoiceNumber'', ''PickRoute'', ''SalesHeaderDocStatus'']
   \<and> \<not> precedes ''Warehouse'' ''Pickticket'' (columns (second_projection ex_final_merge))"
  by code_simp

text \<open>
  Claim C7. Whenever \<^verbatim>\<open>Pickticket\<close> is a column of the second projection's output it is its
  first column, and whenever the pipeline succeeds with a table that has a \<^verbatim>\<open>Pickticket\<close>
  column, that column is the first one of the result.
\<close>

theorem pickticket_first:
  "(''Pickticket'' \<in> set (columns (second_projection f))
      \<longrightarrow> hd (columns (second_projection f)) = ''Pickticket'')
   \<and> (reconcile a b c = Inr t \<and> ''Pickticket'' \<in> set (columns t)
      \<longrightarrow> hd (columns t) = ''Pickticket'')"
proof (intro conjI impI)
  have first: "hd (columns (second_projection g)) = ''Pickticket'' \<and> columns (second_projection g) \<noteq> []"
    if "''Pickticket'' \<in> set (columns (second_projection g))" for g
  proof -
    from that have "''Pickticket'' \<in> set final_columns \<inter> set (columns g)"
      by (simp only: second_projection_columns set_projection)
    then have "''Pickticket'' \<in> set (columns g)" by simp
    then show ?thesis using second_projection_head[of g] by auto
  qed
  show "hd (columns (second_projection f)) = ''Pickticket''"
    if "''Pickticket'' \<in> set (columns (second_projection f))"
    using that first by blast
  show "hd (columns t) = ''Pickticket''"
    if h: "reconcile a b c = Inr t \<and> ''Pickticket'' \<in> set (columns t)"
  proof -
    from h obtain g where g: "columns t = map rename_label (columns (second_projection g))"
      using columns_of_result by blast
    with h have "''Pickticket'' \<in> rename_label ` set (columns (second_projection g))"
      by simp
    then obtain x where x: "x \<in> set (columns (second_projection g))"
        and "''Pickticket'' = rename_label x" by blast
    then have "x = ''Pickticket''" using rename_label_Pickticket[of x] by simp
    with x have "''Pickticket'' \<in> set (columns (second_projection g))" by simp
    then have "hd (columns (second_projection g)) = ''Pickticket''" "columns (second_projection g) \<noteq> []"
      using first by blast+
    then show ?thesis by (simp add: g hd_map rename_label_Pickticket)
  qed
qed

theorem pickticket_first_witness:
  "reconcile ex_shipment_history ex_edib2bi ex_edi940 = Inr ex_renamed
   \<and> ''Pickticket'' \<in> set (columns ex_renamed)
   \<and> hd (columns ex_renamed) = ''Pickticket''
   \<and> ''Pickticket'' \<in> set (columns (second_projection ex_final_merge))
   \<and> hd (columns (second_projection ex_final_merge)) = ''Pickticket''"
proof -
  have r: "reconcile ex_shipment_history ex_edib2bi ex_edi940 = Inr ex_renamed" by code_simp
  have p: "''Pickticket'' \<in> set (columns ex_renamed)" by (simp add: ex_renamed_def)
  have q: "''Pickticket'' \<in> set (columns (second_projection ex_final_merge))" by code_simp
  from pickticket_first[of ex_final_merge ex_shipment_history ex_edib2bi ex_edi940 ex_renamed] r p q
  show ?thesis by simp
qed

section \<open>The two left joins\<close>




section \<open>Missing key columns\<close>

text \<open>
  Claim C4, as amended. When, after the headers are trimmed, \<^verbatim>\<open>Pickticket\<close> is not a label of
  the shipment table, the call fails with the error of line 55 carrying the name
  \<^verbatim>\<open>Shipment_History___Total\<close>, the label \<^verbatim>\<open>Pickticket\<close> and the trimmed labels of that table;
  otherwise, when \<^verbatim>\<open>AXReferenceID\<close> is not a label of the second table, with the name
  \<^verbatim>\<open>EDIB2BiReportV2\<close>; otherwise, when \<^verbatim>\<open>PickRoute\<close> is not a label of the third, with the name
  \<^verbatim>\<open>EDI940Report_withCostV2.0\<close>. This holds whatever the other tables are, also those on
  which a join would fail: the error comes before any join. When the three labels are
  present the result is that of the joins and the later steps, which never is this error.
  It can be another error: the three labels are not the only fatal condition, as the example
  that follows the theorem shows.
\<close>

theorem missing_key_fatality:
  "(''Pickticket'' \<notin> set (map strip (columns a)) \<longrightarrow>
      reconcile a b c =
        Inl (MissingColumn ''Shipment_History___Total'' ''Pickticket'' (map strip (columns a))))
   \<and> (''Pickticket'' \<in> set (map strip (columns a)) \<and>
       ''AXReferenceID'' \<notin> set (map strip (columns b)) \<longrightarrow>
      reconcile a b c =
        Inl (MissingColumn ''EDIB2BiReportV2'' ''AXReferenceID'' (map strip (columns b))))
   \<and> (''Pickticket'' \<in> set (map strip (columns a)) \<and>
       ''AXReferenceID'' \<in> set (map strip (columns b)) \<and>
       ''PickRoute'' \<notin> set (map strip (columns c)) \<longrightarrow>
      reconcile a b c =
        Inl (MissingColumn ''EDI940Report_withCostV2.0'' ''PickRoute'' (map strip (columns c))))
   \<and> (''Pickticket'' \<in> set (map strip (columns a)) \<and>
       ''AXReferenceID'' \<in> set (map strip (columns b)) \<and>
       ''PickRoute'' \<in> set (map strip (columns c)) \<longrightarrow>
      reconcile a b c = merge_and_shape (trim_headers \<lparr>df1 = a, df2 = b, df3 = c\<rparr>)
      \<and> (\<forall>n col cs. reconcile a b c \<noteq> Inl (MissingColumn n col cs)))"
proof (intro conjI impI allI)
  assume "''Pickticket'' \<notin> set (map strip (columns a))"
  then show "reconcile a b c =
        Inl (MissingColumn ''Shipment_History___Total'' ''Pickticket'' (map strip (columns a)))"
    by (simp add: reconcile_unfold)
next
  assume "''Pickticket'' \<in> set (map strip (columns a)) \<and>
       ''AXReferenceID'' \<notin> set (map strip (columns b))"
  then show "reconcile a b c =
        Inl (MissingColumn ''EDIB2BiReportV2'' ''AXReferenceID'' (map strip (columns b)))"
    by (simp add: reconcile_unfold)
next
  assume "''Pickticket'' \<in> set (map strip (columns a)) \<and>
       ''AXReferenceID'' \<in> set (map strip (columns b)) \<and>
       ''PickRoute'' \<notin> set (map strip (columns c))"
  then show "reconcile a b c =
        Inl (MissingColumn ''EDI940Report_withCostV2.0'' ''PickRoute'' (map strip (columns c)))"
    by (simp add: reconcile_unfold)
next
  assume h: "''Pickticket'' \<in> set (map strip (columns a)) \<and>
       ''AXReferenceID'' \<in> set (map strip (columns b)) \<and>
       ''PickRoute'' \<in> set (map strip (columns c))"
  then show r: "reconcile a b c = merge_and_shape (trim_headers \<lparr>df1 = a, df2 = b, df3 = c\<rparr>)"
    by (simp add: reconcile_unfold)
  fix n col cs
  show "reconcile a b c \<noteq> Inl (MissingColumn n col cs)"
    unfolding r by (rule merge_and_shape_not_missing)
qed

theorem missing_key_fatality_witness:
  "''Pickticket'' \<notin> set (map strip (columns ex_no_pickticket))
   \<and> reconcile ex_no_pickticket ex_edib2bi ex_edi940 =
       Inl (MissingColumn ''Shipment_History___Total'' ''Pickticket'' [''Warehouse''])
   \<and> ''Pickticket'' \<in> set (map strip (columns ex_shipment_history))
   \<and> ''AXReferenceID'' \<notin> set (map strip (columns ex_edi940))
   \<and> reconcile ex_shipment_history ex_edi940 ex_edi940 =
       Inl (MissingColumn ''EDIB2BiReportV2'' ''AXReferenceID''
              [''PickRoute'', ''SalesHeaderDocStatus''])
   \<and> ''AXReferenceID'' \<in> set (map strip (columns ex_edib2bi))
   \<and> ''PickRoute'' \<notin> set (map strip (columns ex_edib2bi))
   \<and> reconcile ex_shipment_history ex_edib2bi ex_edib2bi =
       Inl (MissingColumn ''EDI940Report_withCostV2.0'' ''PickRoute''
              [''AXReferenceID'', ''InvoiceNumber''])
   \<and> ''PickRoute'' \<in> set (map strip (columns ex_edi940))
   \<and> reconcile ex_shipment_history ex_edib2bi ex_edi940 \<noteq>
       Inl (MissingColumn ''Shipment_History___Total'' ''Pickticket'' [''Pickticket'', ''Warehouse''])"
proof -
  have a: "''Pickticket'' \<notin> set (map strip (columns ex_no_pickticket))" by code_simp
  have b: "''Pickticket'' \<in> set (map strip (columns ex_shipment_history))" by code_simp
  have c: "''AXReferenceID'' \<notin> set (map strip (columns ex_edi940))" by code_simp
  have d: "''AXReferenceID'' \<in> set (map strip (columns ex_edib2bi))" by code_simp
  have e: "''PickRoute'' \<notin> set (map strip (columns ex_edib2bi))" by code_simp
  have f: "''PickRoute'' \<in> set (map strip (columns ex_edi940))" by code_simp
  have g: "map strip (columns ex_no_pickticket) = [''Warehouse'']" by code_simp
  have h: "map strip (columns ex_edi940) = [''PickRoute'', ''SalesHeaderDocStatus'']" by code_simp
  have i: "map strip (columns ex_edib2bi) = [''AXReferenceID'', ''InvoiceNumber'']" by code_simp
  from missing_key_fatality[of ex_no_pickticket ex_edib2bi ex_edi940] a g
  have 1: "reconcile ex_no_pickticket ex_edib2bi ex_edi940 =
       Inl (MissingColumn ''Shipment_History___Total'' ''Pickticket'' [''Warehouse''])"
    by simp
  from missing_key_fatality[of ex_shipment_history ex_edi940 ex_edi940] b c h
  have 2: "reconcile ex_shipment_history ex_edi940 ex_edi940 =
       Inl (MissingColumn ''EDIB2BiReportV2'' ''AXReferenceID''
              [''PickRoute'', ''SalesHeaderDocStatus''])"
    by simp
  from missing_key_fatality[of ex_shipment_history ex_edib2bi ex_edib2bi] b d e i
  have 3: "reconcile ex_shipment_history ex_edib2bi ex_edib2bi =
       Inl (MissingColumn ''EDI940Report_withCostV2.0'' ''PickRoute''
              [''AXReferenceID'', ''InvoiceNumber''])"
    by simp
  from missing_key_fatality[of ex_shipment_history ex_edib2bi ex_edi940] b d f
  have 4: "reconcile ex_shipment_history ex_edib2bi ex_edi940 \<noteq>
       Inl (MissingColumn ''Shipment_History___Total'' ''Pickticket'' [''Pickticket'', ''Warehouse''])"
    by blast
  from a b c d e f 1 2 3 4 show ?thesis by blast
qed

text \<open>
  The three key labels are present, and the second table has a \<^verbatim>\<open>Pickticket\<close> column of its
  own. The first join renames both \<^verbatim>\<open>Pickticket\<close> columns with a suffix, the projection
  finds no \<^verbatim>\<open>Pickticket\<close>, and the second join fails on its left key.
\<close>

theorem missing_key_fatality_counterexample:
  "''Pickticket'' \<in> set (map strip (columns ex_shipment_history))
   \<and> ''AXReferenceID'' \<in> set (map strip (columns ex_edib2bi_pickticket))
   \<and> ''PickRoute'' \<in> set (map strip (columns ex_edi940))
   \<and> reconcile ex_shipment_history ex_edib2bi_pickticket ex_edi940 = Inl (KeyError ''Pickticket'')"
  by code_simp

section \<open>The three frames after the call\<close>




section \<open>Labels that both sides of a join carry\<close>

text \<open>
  Claim C10, as amended. Let \<open>c\<close> be a label of the allow-list that both tables of a join
  carry. The joined table then has the labels \<open>c\<close> with \<^verbatim>\<open>_x\<close> and \<open>c\<close> with \<^verbatim>\<open>_y\<close> appended and
  no label \<open>c\<close>, and the projection that follows the join has none of the three: the column
  is kept from neither side of that join. For the second join this means that the result
  table has no column for \<open>c\<close>, under its own or its renamed label. For the first join the
  result table has no column for \<open>c\<close> when the third table has no column \<open>c\<close>; when it has one,
  that column comes back through the second join, as the example after the theorem shows.
  The first two parts are about the join of lines 58 to 60 on the trimmed tables and the join
  of line 71 on any two tables; the last two are about a call that returns the table \<open>t\<close>.
\<close>

theorem collision_drops_column:
  "(first_join (strip_columns a) (strip_columns b) = Inr merged \<and> c \<in> set first_columns
      \<and> c \<in> set (columns (strip_columns a)) \<and> c \<in> set (columns (strip_columns b)) \<longrightarrow>
        c @ ''_x'' \<in> set (columns merged) \<and> c @ ''_y'' \<in> set (columns merged)
        \<and> c \<notin> set (columns merged)
        \<and> set (columns (first_projection merged)) \<inter> {c, c @ ''_x'', c @ ''_y''} = {})
   \<and> (second_join proj e9 = Inr final \<and> c \<in> set final_columns
      \<and> c \<in> set (columns proj) \<and> c \<in> set (columns e9) \<longrightarrow>
        c @ ''_x'' \<in> set (columns final) \<and> c @ ''_y'' \<in> set (columns final)
        \<and> c \<notin> set (columns final)
        \<and> set (columns (second_projection final)) \<inter> {c, c @ ''_x'', c @ ''_y''} = {}
        \<and> rename_label c \<notin> set (columns (rename_columns (second_projection final))))
   \<and> (reconcile a b e = Inr t \<and> c \<in> set first_columns
      \<and> c \<in> set (columns (strip_columns a)) \<and> c \<in> set (columns (strip_columns b))
      \<and> c \<notin> set (columns (strip_columns e)) \<longrightarrow>
        rename_label c \<notin> set (columns t))
   \<and> (reconcile a b e = Inr t \<and> first_join (strip_columns a) (strip_columns b) = Inr merged
      \<and> c \<in> set final_columns
      \<and> c \<in> set (columns (first_projection merged)) \<and> c \<in> set (columns (strip_columns e)) \<longrightarrow>
        rename_label c \<notin> set (columns t))"
proof (intro conjI impI)
  assume h: "first_join (strip_columns a) (strip_columns b) = Inr merged \<and> c \<in> set first_columns
      \<and> c \<in> set (columns (strip_columns a)) \<and> c \<in> set (columns (strip_columns b))"
  let ?L = "map strip (columns a)" and ?R = "map strip (columns b)"
  from h have cl: "c \<in> set ?L" and cr: "c \<in> set ?R" by (simp_all add: strip_columns_def)
  from h have cf: "c \<in> set final_columns" using first_in_final by auto
  from h have "first_join (strip_columns a) (strip_columns b) = Inr merged" by simp
  then have cols: "columns merged = map (renamer ?L ?R ''_x'') ?L @ map (renamer ?L ?R ''_y'') ?R"
    by (rule first_join_columns)
  show x: "c @ ''_x'' \<in> set (columns merged)" unfolding cols using cl cr by (rule merged_collision)
  show y: "c @ ''_y'' \<in> set (columns merged)" unfolding cols using cl cr by (rule merged_collision)
  show n: "c \<notin> set (columns merged)"
    unfolding cols using merged_label_iff[OF final_columns_no_suffix(1,2)[OF cf], of ?L ?R] cl cr
    by simp
  have "c @ ''_x'' \<notin> set final_columns" "c @ ''_y'' \<notin> set final_columns"
    using final_columns_no_suffix(1)[of "c @ ''_x''"] final_columns_no_suffix(2)[of "c @ ''_y''"]
    by (auto simp: suffixed_label)
  then have "c @ ''_x'' \<notin> set first_columns" "c @ ''_y'' \<notin> set first_columns"
    using first_in_final by auto
  then show "set (columns (first_projection merged)) \<inter> {c, c @ ''_x'', c @ ''_y''} = {}"
    using n by (simp add: set_first_projection)
next
  assume h: "second_join proj e9 = Inr final \<and> c \<in> set final_columns
      \<and> c \<in> set (columns proj) \<and> c \<in> set (columns e9)"
  let ?L = "columns proj" and ?R = "columns e9"
  from h have cl: "c \<in> set ?L" and cr: "c \<in> set ?R" and cf: "c \<in> set final_columns"
    by simp_all
  from h have "second_join proj e9 = Inr final" by simp
  then have cols: "columns final = map (renamer ?L ?R ''_x'') ?L @ map (renamer ?L ?R ''_y'') ?R"
    by (rule second_join_columns)
  show "c @ ''_x'' \<in> set (columns final)" unfolding cols using cl cr by (rule merged_collision)
  show "c @ ''_y'' \<in> set (columns final)" unfolding cols using cl cr by (rule merged_collision)
  show n: "c \<notin> set (columns final)"
    unfolding cols using merged_label_iff[OF final_columns_no_suffix(1,2)[OF cf], of ?L ?R] cl cr
    by simp
  have "c @ ''_x'' \<notin> set final_columns" "c @ ''_y'' \<notin> set final_columns"
    using final_columns_no_suffix(1)[of "c @ ''_x''"] final_columns_no_suffix(2)[of "c @ ''_y''"]
    by (auto simp: suffixed_label)
  then show "set (columns (second_projection final)) \<inter> {c, c @ ''_x'', c @ ''_y''} = {}"
    using n by (simp add: set_second_projection)
  show "rename_label c \<notin> set (columns (rename_columns (second_projection final)))"
    using cf n by (rule absent_from_renamed)
next
  assume h: "reconcile a b e = Inr t \<and> c \<in> set first_columns
      \<and> c \<in> set (columns (strip_columns a)) \<and> c \<in> set (columns (strip_columns b))
      \<and> c \<notin> set (columns (strip_columns e))"
  let ?L = "map strip (columns a)" and ?R = "map strip (columns b)"
  from h have cl: "c \<in> set ?L" and cr: "c \<in> set ?R" by (simp_all add: strip_columns_def)
  from h have cf: "c \<in> set final_columns" using first_in_final by auto
  from h obtain merged' final where
    m: "first_join (strip_columns a) (strip_columns b) = Inr merged'"
    and f: "second_join (first_projection merged') (strip_columns e) = Inr final"
    and t: "columns t = columns (rename_columns (second_projection final))"
    using reconcile_Inr[of a b e t] by blast
  have "c \<notin> set (columns merged')"
    using merged_label_iff[OF final_columns_no_suffix(1,2)[OF cf], of ?L ?R] cl cr
    by (simp add: first_join_columns[OF m])
  then have "c \<notin> set (columns (first_projection merged'))" by (simp add: set_first_projection)
  moreover from h have "c \<notin> set (columns (strip_columns e))" by simp
  ultimately have "c \<notin> set (columns final)"
    using merged_label_iff[OF final_columns_no_suffix(1,2)[OF cf],
            of "columns (first_projection merged')" "columns (strip_columns e)"]
    by (simp add: second_join_columns[OF f])
  with cf show "rename_label c \<notin> set (columns t)"
    unfolding t by (rule absent_from_renamed)
next
  assume h: "reconcile a b e = Inr t \<and> first_join (strip_columns a) (strip_columns b) = Inr merged
      \<and> c \<in> set final_columns
      \<and> c \<in> set (columns (first_projection merged)) \<and> c \<in> set (columns (strip_columns e))"
  then have cf: "c \<in> set final_columns" by simp
  from h obtain merged' final where
    m: "first_join (strip_columns a) (strip_columns b) = Inr merged'"
    and f: "second_join (first_projection merged') (strip_columns e) = Inr final"
    and t: "columns t = columns (rename_columns (second_projection final))"
    using reconcile_Inr[of a b e t] by blast
  from m h have "merged' = merged" by simp
  with h have "c \<in> set (columns (first_projection merged'))"
    and "c \<in> set (columns (strip_columns e))" by simp_all
  then have "c \<notin> set (columns final)"
    using merged_label_iff[OF final_columns_no_suffix(1,2)[OF cf],
            of "columns (first_projection merged')" "columns (strip_columns e)"]
    by (simp add: second_join_columns[OF f])
  with cf show "rename_label c \<notin> set (columns t)"
    unfolding t by (rule absent_from_renamed)
qed


theorem collision_drops_column_witness:
  "first_join (strip_columns ex_shipment_history) (strip_columns ex_edib2bi_warehouse)
     = Inr ex_collision_merged
   \<and> ''Warehouse'' \<in> set first_columns
   \<and> ''Warehouse'' \<in> set (columns (strip_columns ex_shipment_history))
   \<and> ''Warehouse'' \<in> set (columns (strip_columns ex_edib2bi_warehouse))
   \<and> ''Warehouse'' \<notin> set (columns (strip_columns ex_edi940))
   \<and> reconcile ex_shipment_history ex_edib2bi_warehouse ex_edi940 = Inr ex_collision_result
   \<and> ''Warehouse_x'' \<in> set (columns ex_collision_merged)
   \<and> ''Warehouse_y'' \<in> set (columns ex_collision_merged)
   \<and> ''Warehouse'' \<notin> set (columns (first_projection ex_collision_merged))
   \<and> ''Warehouse'' \<notin> set (columns ex_collision_result)
   \<and> first_join (strip_columns ex_shipment_history) (strip_columns ex_edib2bi) = Inr ex_plain_merged
   \<and> second_join (first_projection ex_plain_merged) (strip_columns ex_edi940_warehouse)
       = Inr ex_collision_final
   \<and> ''Warehouse'' \<in> set (columns (first_projection ex_plain_merged))
   \<and> ''Warehouse'' \<in> set (columns (strip_columns ex_edi940_warehouse))
   \<and> reconcile ex_shipment_history ex_edib2bi ex_edi940_warehouse = Inr ex_late_collision_result
   \<and> ''Warehouse_x'' \<in> set (columns ex_collision_final)
   \<and> ''Warehouse'' \<notin> set (columns (second_projection ex_collision_final))
   \<and> ''Warehouse'' \<notin> set (columns ex_late_collision_result)"
proof -
  have h1: "first_join (strip_columns ex_shipment_history) (strip_columns ex_edib2bi_warehouse)
     = Inr ex_collision_merged" by code_simp
  have h2: "''Warehouse'' \<in> set first_columns" by code_simp
  have h3: "''Warehouse'' \<in> set (columns (strip_columns ex_shipment_history))" by code_simp
  have h4: "''Warehouse'' \<in> set (columns (strip_columns ex_edib2bi_warehouse))" by code_simp
  have h5: "''Warehouse'' \<notin> set (columns (strip_columns ex_edi940))" by code_simp
  have h6: "reconcile ex_shipment_history ex_edib2bi_warehouse ex_edi940 = Inr ex_collision_result"
    by code_simp
  have k1: "first_join (strip_columns ex_shipment_history) (strip_columns ex_edib2bi)
     = Inr ex_plain_merged" by code_simp
  have k2: "second_join (first_projection ex_plain_merged) (strip_columns ex_edi940_warehouse)
       = Inr ex_collision_final" by code_simp
  have k3: "''Warehouse'' \<in> set final_columns" by code_simp
  have k4: "''Warehouse'' \<in> set (columns (first_projection ex_plain_merged))" by code_simp
  have k5: "''Warehouse'' \<in> set (columns (strip_columns ex_edi940_warehouse))" by code_simp
  have k6: "reconcile ex_shipment_history ex_edib2bi ex_edi940_warehouse
              = Inr ex_late_collision_result" by code_simp
  have rl: "rename_label ''Warehouse'' = ''Warehouse''" by code_simp
  note early = collision_drops_column[where a = ex_shipment_history and b = ex_edib2bi_warehouse
      and merged = ex_collision_merged and c = "''Warehouse''" and e = ex_edi940
      and t = ex_collision_result]
  note late = collision_drops_column[where a = ex_shipment_history and b = ex_edib2bi
      and merged = ex_plain_merged and c = "''Warehouse''" and e = ex_edi940_warehouse
      and t = ex_late_collision_result and proj = "first_projection ex_plain_merged"
      and ?e9.0 = "strip_columns ex_edi940_warehouse" and final = ex_collision_final]
  have r1: "''Warehouse'' @ ''_x'' \<in> set (columns ex_collision_merged)
        \<and> ''Warehouse'' @ ''_y'' \<in> set (columns ex_collision_merged)
        \<and> set (columns (first_projection ex_collision_merged))
             \<inter> {''Warehouse'', ''Warehouse'' @ ''_x'', ''Warehouse'' @ ''_y''} = {}"
    using early h1 h2 h3 h4 by blast
  have r2: "rename_label ''Warehouse'' \<notin> set (columns ex_collision_result)"
    using early h2 h3 h4 h5 h6 by blast
  have r3: "''Warehouse'' @ ''_x'' \<in> set (columns ex_collision_final)
        \<and> set (columns (second_projection ex_collision_final))
             \<inter> {''Warehouse'', ''Warehouse'' @ ''_x'', ''Warehouse'' @ ''_y''} = {}"
    using late k2 k3 k4 k5 by blast
  have r4: "rename_label ''Warehouse'' \<notin> set (columns ex_late_collision_result)"
    using late k1 k3 k4 k5 k6 by blast
  from r1 have s1: "''Warehouse_x'' \<in> set (columns ex_collision_merged)"
    and s2: "''Warehouse_y'' \<in> set (columns ex_collision_merged)"
    and s3: "''Warehouse'' \<notin> set (columns (first_projection ex_collision_merged))"
    by simp_all
  from r3 have s4: "''Warehouse_x'' \<in> set (columns ex_collision_final)"
    and s5: "''Warehouse'' \<notin> set (columns (second_projection ex_collision_final))"
    by simp_all
  from r2 have s6: "''Warehouse'' \<notin> set (columns ex_collision_result)"
    unfolding rl .
  from r4 have s7: "''Warehouse'' \<notin> set (columns ex_late_collision_result)"
    unfolding rl .
  from h1 h2 h3 h4 h5 h6 k1 k2 k4 k5 k6 s1 s2 s3 s4 s5 s6 s7 show ?thesis by blast
qed

text \<open>
  \<^verbatim>\<open>Warehouse\<close> is a column of all three tables. The first join gives \<^verbatim>\<open>Warehouse_x\<close> and
  \<^verbatim>\<open>Warehouse_y\<close>, which the first projection drops; the second join then meets no
  \<^verbatim>\<open>Warehouse\<close> on its left, and the result table has the \<^verbatim>\<open>Warehouse\<close> column of the third
  table.
\<close>

theorem collision_drops_column_counterexample:
  "''Warehouse'' \<in> set (columns ex_shipment_history)
   \<and> ''Warehouse'' \<in> set (columns ex_edib2bi_warehouse)
   \<and> first_join (strip_columns ex_shipment_history) (strip_columns ex_edib2bi_warehouse)
       = Inr ex_collision_merged
   \<and> reconcile ex_shipment_history ex_edib2bi_warehouse ex_edi940_warehouse
       = Inr ex_returned_column
   \<and> ''Warehouse'' \<in> set (columns ex_returned_column)
   \<and> rows ex_returned_column = [[Str ''P1'', Str ''W3'', Str ''P1'']]"
  by code_simp

end
